theory Spec2Isabelle
  imports Complex_Main "HOL-Library.Word" "HOL-Library.Log_Nat"
begin

text \<open>
  The image pipeline of the plugin, \<open>src/utils/core.ts\<close>.  The repository holds the
  pipeline a second time, with a context argument for logging, a yield to the event loop
  after each engine call, \<open>fs/promises\<close> in place of the synchronous file reads, PNG in
  place of AVIF as the final format, and \<open>vipsPromise\<close> created by the first \<open>getVips\<close>
  instead of at module load; the functions are otherwise the same, statement by
  statement.
\<close>

section \<open>JavaScript values used by \<open>utils/core.ts\<close>\<close>

subsection \<open>Numbers\<close>

text \<open>
  A JavaScript \<open>number\<close> is an IEEE 754 binary64 value.  A finite one is kept as the
  real number it denotes; the infinities and \<open>NaN\<close> are values of their own.  Each of
  \<open>+\<close>, \<open>*\<close> and \<open>/\<close> returns the exact result rounded to the nearest double, ties to
  the even significand, and so does the reading of a decimal literal such as \<open>1.2\<close>;
  \<open>Math.floor\<close> and \<open>Math.ceil\<close> of a double are doubles and need no rounding.  Signed
  zeros are not distinguished: the only divisor that can be zero is the floor of a box
  width divided by a positive font size, which is never \<open>-0\<close>.  The pixel sizes, character
  counts and font sizes that enter the layout are integers below \<open>2 ^ 53\<close>, which are
  doubles.
\<close>

datatype jsnum = Fin real | PInf | NInf | NaN

definition pow2 :: "int \<Rightarrow> real" where
  "pow2 k = (if 0 \<le> k then 2 ^ nat k else 1 / 2 ^ nat (- k))"

text \<open>
  The exponent \<open>e\<close> of a positive real \<open>a\<close>, \<open>2 ^ e <= a < 2 ^ (e + 1)\<close>, from the number
  of binary digits \<open>bitlen\<close> of an integer.
\<close>

definition binaryExponent :: "real \<Rightarrow> int" where
  "binaryExponent a =
     (if 1 \<le> a then bitlen \<lfloor>a\<rfloor> - 1 else - bitlen (\<lceil>1 / a\<rceil> - 1))"

definition roundTiesToEven :: "real \<Rightarrow> int" where
  "roundTiesToEven y =
     (let f = \<lfloor>y\<rfloor>; d = y - of_int f
      in if d < 1 / 2 then f else if 1 / 2 < d then f + 1 else if even f then f else f + 1)"

text \<open>
  The double nearest to a real number.  Doubles with exponent \<open>e\<close> are the multiples of
  \<open>2 ^ (e - 52)\<close>; below \<open>2 ^ -1022\<close> the spacing stays \<open>2 ^ -1074\<close> (subnormal numbers),
  and a result that rounds to \<open>2 ^ 1024\<close> is an infinity.
\<close>

definition toDouble :: "real \<Rightarrow> jsnum" where
  "toDouble x =
     (if x = 0 then Fin 0
      else let e = max (binaryExponent \<bar>x\<bar>) (- 1022);
               ulp = pow2 (e - 52);
               r = of_int (roundTiesToEven (\<bar>x\<bar> / ulp)) * ulp
           in if pow2 1024 \<le> r then (if 0 < x then PInf else NInf)
              else Fin (if 0 < x then r else - r))"

fun jsadd :: "jsnum \<Rightarrow> jsnum \<Rightarrow> jsnum" where
  "jsadd NaN _ = NaN"
| "jsadd _ NaN = NaN"
| "jsadd (Fin a) (Fin b) = toDouble (a + b)"
| "jsadd PInf NInf = NaN"
| "jsadd NInf PInf = NaN"
| "jsadd PInf _ = PInf"
| "jsadd NInf _ = NInf"
| "jsadd (Fin a) b = b"

fun jssgn :: "jsnum \<Rightarrow> int" where
  "jssgn (Fin a) = (if a > 0 then 1 else if a < 0 then - 1 else 0)"
| "jssgn PInf = 1"
| "jssgn NInf = - 1"
| "jssgn NaN = 0"

fun jsmul :: "jsnum \<Rightarrow> jsnum \<Rightarrow> jsnum" where
  "jsmul NaN _ = NaN"
| "jsmul _ NaN = NaN"
| "jsmul (Fin a) (Fin b) = toDouble (a * b)"
| "jsmul a b =
     (if jssgn a * jssgn b = 0 then NaN else if jssgn a * jssgn b > 0 then PInf else NInf)"

fun jsdiv :: "jsnum \<Rightarrow> jsnum \<Rightarrow> jsnum" where
  "jsdiv NaN _ = NaN"
| "jsdiv _ NaN = NaN"
| "jsdiv (Fin a) (Fin b) =
     (if b = 0 then (if a = 0 then NaN else if a > 0 then PInf else NInf) else toDouble (a / b))"
| "jsdiv (Fin a) _ = Fin 0"
| "jsdiv a (Fin b) = (if (jssgn a > 0) = (b \<ge> 0) then PInf else NInf)"
| "jsdiv _ _ = NaN"

fun jsfloor :: "jsnum \<Rightarrow> jsnum" where
  "jsfloor (Fin a) = Fin (of_int \<lfloor>a\<rfloor>)"
| "jsfloor a = a"

fun jsceil :: "jsnum \<Rightarrow> jsnum" where
  "jsceil (Fin a) = Fin (of_int \<lceil>a\<rceil>)"
| "jsceil a = a"

text \<open>\<open>a <= b\<close>; every comparison with \<open>NaN\<close> is false.\<close>

fun jsle :: "jsnum \<Rightarrow> jsnum \<Rightarrow> bool" where
  "jsle NaN _ = False"
| "jsle _ NaN = False"
| "jsle (Fin a) (Fin b) = (a \<le> b)"
| "jsle NInf _ = True"
| "jsle _ PInf = True"
| "jsle _ _ = False"

text \<open>\<open>Math.max(...xs)\<close>: \<open>-Infinity\<close> for no argument, \<open>NaN\<close> as soon as one is.\<close>

fun jsmax2 :: "jsnum \<Rightarrow> jsnum \<Rightarrow> jsnum" where
  "jsmax2 NaN _ = NaN"
| "jsmax2 _ NaN = NaN"
| "jsmax2 a b = (if jsle a b then b else a)"

definition jsmax :: "jsnum list \<Rightarrow> jsnum" where
  "jsmax xs = foldl jsmax2 NInf xs"

abbreviation num :: "int \<Rightarrow> jsnum" where
  "num i \<equiv> Fin (of_int i)"

subsection \<open>Strings\<close>

text \<open>
  A JavaScript string is a sequence of UTF-16 code units and \<open>s.length\<close> counts them.
  \<open>for (const char of text)\<close> walks the string by code point: a high surrogate that is
  followed by a low surrogate comes out as one two-unit string, every other unit as a
  one-unit string.
\<close>

type_synonym jsstring = "16 word list"

definition isHigh :: "16 word \<Rightarrow> bool" where
  "isHigh u = (0xD800 \<le> u \<and> u \<le> 0xDBFF)"

definition isLow :: "16 word \<Rightarrow> bool" where
  "isLow u = (0xDC00 \<le> u \<and> u \<le> 0xDFFF)"

fun codePoints :: "jsstring \<Rightarrow> jsstring list" where
  "codePoints [] = []"
| "codePoints [u] = [[u]]"
| "codePoints (u # v # us) =
     (if isHigh u \<and> isLow v then [u, v] # codePoints us else [u] # codePoints (v # us))"

definition strlen :: "jsstring \<Rightarrow> jsnum" where
  "strlen s = num (int (length s))"

section \<open>Text layout\<close>

subsection \<open>Line wrapping (\<open>generateTextSvg\<close>, the loop over \<open>text\<close>)\<close>

text \<open>
  \<open>wrapLoop m currentLine chars\<close> is the loop body run over the remaining characters,
  followed by the \<open>if (currentLine) lines.push(currentLine)\<close> after the loop (an empty
  string is falsy).  It returns the lines pushed from here on.
\<close>

fun wrapLoop :: "jsnum \<Rightarrow> jsstring \<Rightarrow> jsstring list \<Rightarrow> jsstring list" where
  "wrapLoop maxCharsPerLine currentLine [] = (if currentLine \<noteq> [] then [currentLine] else [])"
| "wrapLoop maxCharsPerLine currentLine (char # rest) =
     (if jsle maxCharsPerLine (strlen currentLine)
      then currentLine # wrapLoop maxCharsPerLine char rest
      else wrapLoop maxCharsPerLine (currentLine @ char) rest)"

definition wrapLines :: "jsnum \<Rightarrow> jsstring \<Rightarrow> jsstring list" where
  "wrapLines maxCharsPerLine text = wrapLoop maxCharsPerLine [] (codePoints text)"

subsection \<open>The vector document\<close>

text \<open>
  \<open>generateTextSvg\<close> returns the markup as one string built from a template.  The
  document is kept here as the template's structure: the \<open>width\<close> and \<open>height\<close>
  attributes of the \<open>svg\<close> element and its \<open>text\<close> elements in document order, each with
  the attributes the template writes.  An attribute the template does not write is
  \<open>None\<close>.  \<open>encodeXML\<close> is the escaping function of the \<open>entities\<close> package and is a
  parameter.
\<close>

text \<open>
  A \<open>fill\<close> attribute is either a colour string passed in or the template
  \<open>rgb(${font_color.join(',')})\<close> over the numbers of a caption's colour.
\<close>

datatype paint = Colour string | Rgb "int list"

record textRun =
  run_x :: jsnum
  run_y :: jsnum
  run_font_size :: jsnum
  run_fill :: paint
  run_fill_opacity :: "real option"
  run_font_family :: string
  run_content :: jsstring

record svg =
  svg_width :: jsnum
  svg_height :: jsnum
  svg_runs :: "textRun list"

definition textElement ::
  "(jsstring \<Rightarrow> jsstring) \<Rightarrow> jsnum \<Rightarrow> jsnum \<Rightarrow> paint \<Rightarrow> nat \<times> jsstring \<Rightarrow> textRun list" where
  "textElement encodeXML fontSize lineHeight color il =
     (let index = fst il; line = snd il;
          y = jsadd fontSize (jsmul (num (int index)) lineHeight);
          escapedLine = encodeXML line
      in [\<lparr>run_x = Fin 2, run_y = jsadd y (Fin 2), run_font_size = fontSize,
            run_fill = Colour ''#000000'', run_fill_opacity = Some (1 / 2),
            run_font_family = ''CustomFont'', run_content = escapedLine\<rparr>,
          \<lparr>run_x = Fin 0, run_y = y, run_font_size = fontSize,
            run_fill = color, run_fill_opacity = None,
            run_font_family = ''CustomFont'', run_content = escapedLine\<rparr>])"

definition generateTextSvg ::
  "(jsstring \<Rightarrow> jsstring) \<Rightarrow> jsstring \<Rightarrow> jsnum \<Rightarrow> jsnum \<Rightarrow> paint \<Rightarrow> svg" where
  "generateTextSvg encodeXML text width fontSize color =
     (let maxCharsPerLine = jsfloor (jsdiv width fontSize);
          lines = wrapLines maxCharsPerLine text;
          lineHeight = jsmul fontSize (toDouble (12 / 10));
          maxLineLength = jsmax (map strlen lines);
          svgWidth = jsadd (jsmul maxLineLength fontSize) (Fin 4);
          svgHeight = jsadd (jsmul (num (int (length lines))) lineHeight)
                            (jsmul fontSize (toDouble (3 / 10)));
          textElements = concat (map (textElement encodeXML fontSize lineHeight color)
                                     (enumerate 0 lines))
      in \<lparr>svg_width = svgWidth, svg_height = svgHeight, svg_runs = textElements\<rparr>)"

subsection \<open>The font-size search (\<open>drawUserText\<close>, the \<open>for\<close> loop)\<close>

text \<open>The test \<open>svgHeight <= boxHeight\<close> of one iteration, at \<open>testFontSize\<close>.\<close>

definition heightFits :: "jsstring \<Rightarrow> int \<Rightarrow> int \<Rightarrow> int \<Rightarrow> bool" where
  "heightFits text boxWidth boxHeight testFontSize =
     (let maxCharsPerLine = jsfloor (jsdiv (num boxWidth) (num testFontSize));
          lineCount = jsceil (jsdiv (strlen text) maxCharsPerLine);
          lineHeight = jsmul (num testFontSize) (toDouble (12 / 10));
          svgHeight = jsadd (jsmul lineCount lineHeight) (jsmul (num testFontSize) (toDouble (3 / 10)))
      in jsle svgHeight (num boxHeight))"

text \<open>
  The loop \<open>for (testFontSize = fontSize; testFontSize >= 24; testFontSize -= 6)\<close>, from
  the iteration at \<open>testFontSize\<close> on; the result is the value of \<open>fontSize\<close> after it.
  \<open>fontSize\<close> is assigned only in the branch that breaks.
\<close>

function fontSizeLoop :: "jsstring \<Rightarrow> int \<Rightarrow> int \<Rightarrow> int \<Rightarrow> int \<Rightarrow> int" where
  "fontSizeLoop text boxWidth boxHeight fontSize testFontSize =
     (if testFontSize \<ge> 24
      then (if heightFits text boxWidth boxHeight testFontSize
            then testFontSize
            else fontSizeLoop text boxWidth boxHeight fontSize (testFontSize - 6))
      else fontSize)"
  by pat_completeness auto
termination
  by (relation "measure (\<lambda>(text, boxWidth, boxHeight, fontSize, testFontSize). nat (testFontSize - 17))") auto

declare fontSizeLoop.simps [simp del]

definition chooseFontSize :: "jsstring \<Rightarrow> int \<Rightarrow> int \<Rightarrow> int \<Rightarrow> int" where
  "chooseFontSize text boxWidth boxHeight initialFontSize =
     fontSizeLoop text boxWidth boxHeight initialFontSize initialFontSize"

section \<open>Catalog and assets\<close>

record CharacterMeta =
  full_name :: string
  emotion_count :: nat
  font :: string

record TextConfig =
  cfg_text :: jsstring
  cfg_position :: "int \<times> int"
  cfg_font_color :: "int list"
  cfg_font_size :: int

text \<open>
  \<open>charaMeta\<close> and \<open>textConfigs\<close> are plain objects (the literal \<open>{}\<close> or what the YAML
  loader builds), used as dictionaries and read with \<open>obj[key]\<close>.  Such a read finds the
  object's own property first and the property of \<open>Object.prototype\<close> otherwise; only
  then is it \<open>undefined\<close>.  The inherited values are functions, or the prototype object
  itself for \<open>__proto__\<close>: all of them truthy, none with a field \<open>font\<close> or
  \<open>emotion_count\<close>, none iterable.  \<open>Object.entries\<close> lists own properties only.
\<close>

definition objectPrototypeKeys :: "string list" where
  "objectPrototypeKeys =
     [''constructor'', ''toString'', ''toLocaleString'', ''valueOf'', ''hasOwnProperty'',
      ''isPrototypeOf'', ''propertyIsEnumerable'', ''__proto__'', ''__defineGetter__'',
      ''__defineSetter__'', ''__lookupGetter__'', ''__lookupSetter__'']"

datatype 'a property = Own 'a | Inherited | Undefined

definition getProperty :: "(string \<rightharpoonup> 'a) \<Rightarrow> string \<Rightarrow> 'a property" where
  "getProperty obj key =
     (case obj key of
        Some v \<Rightarrow> Own v
      | None \<Rightarrow> if key \<in> set objectPrototypeKeys then Inherited else Undefined)"

record assets =
  charaMeta :: "string \<rightharpoonup> CharacterMeta"
  textConfigs :: "string \<rightharpoonup> TextConfig list"

text \<open>The files the code reads, by the way their path is built.\<close>

datatype index = Index int | UndefinedIndex

datatype asset =
    BackgroundFile index
  | CharaFile string index
  | FontFile string
  | BackgroundDir

text \<open>\<open>charaMeta[character]?.font || 'font3.ttf'\<close>; the empty string is falsy.\<close>

definition fontPathOf :: "assets \<Rightarrow> string \<Rightarrow> asset" where
  "fontPathOf a character =
     FontFile (case getProperty (charaMeta a) character of
                 Own meta \<Rightarrow> if font meta \<noteq> [] then font meta else ''font3.ttf''
               | _ \<Rightarrow> ''font3.ttf'')"

section \<open>Errors, the two native libraries, and the process-wide state\<close>

text \<open>A thrown value: an \<open>Error\<close> object with its message, or anything else.\<close>

datatype jserror = Error string | Thrown string

fun strIncludes :: "string \<Rightarrow> string \<Rightarrow> bool" where
  "strIncludes [] pat = (pat = [])"
| "strIncludes (c # cs) pat = (take (length pat) (c # cs) = pat \<or> strIncludes cs pat)"

type_synonym bytes = "8 word list"

text \<open>
  A raster image object of the engine: the identity of the native object behind it, its
  band count and what \<open>hasAlpha()\<close> answers.
\<close>

record image =
  img_handle :: nat
  img_bands :: nat
  img_alpha :: bool

text \<open>
  A promise as an \<open>await\<close> finds it once it has settled.
\<close>

datatype promise = Fulfilled | Rejected jserror

text \<open>The calls made into the raster engine, in order.\<close>

datatype call =
    NewFromFile asset
  | NewFromBuffer bytes
  | Bandjoin image
  | Composite2 image image int int
  | WriteToBuffer image
  | Dispose nat

text \<open>
  \<open>initialized\<close> and \<open>initializing\<close> are the two fields of \<open>globalState\<close>;
  \<open>nextHandle\<close> numbers the native image objects as they are created and \<open>calls\<close>
  records the engine calls.
\<close>

record state =
  initialized :: bool
  initializing :: "promise option"
  nextHandle :: nat
  calls :: "call list"

text \<open>
  Everything outside the repository, as functions of the arguments the code passes:
  the file system, \<open>wasm-vips\<close>, \<open>@resvg/resvg-wasm\<close>, \<open>entities\<close>, and
  \<open>shuffleArray\<close> of \<open>./shuffle\<close>, whose source is not among the files.  A decoder
  answers the band count and alpha flag of the image it produced.
\<close>

record world =
  w_vipsPromise :: "jserror option"
  w_loadWasm :: "jserror + bytes"
  w_initWasm :: "bytes \<Rightarrow> jserror option"
  w_readFileSync :: "asset \<Rightarrow> jserror + bytes"
  w_readdirSync :: "asset \<Rightarrow> jserror + string list"
  w_shuffleArray :: "int list \<Rightarrow> int list"
  w_newFromFile :: "asset \<Rightarrow> jserror + nat \<times> bool"
  w_newFromBuffer :: "bytes \<Rightarrow> jserror + nat \<times> bool"
  w_bandjoin :: "image \<Rightarrow> jserror option"
  w_composite2 :: "image \<Rightarrow> image \<Rightarrow> int \<Rightarrow> int \<Rightarrow> jserror + nat \<times> bool"
  w_writeToBuffer :: "image \<Rightarrow> string \<Rightarrow> jserror + bytes"
  w_disposeThrows :: "nat \<Rightarrow> bool"
  w_render :: "svg \<Rightarrow> bytes \<Rightarrow> jserror + bytes"
  w_encodeXML :: "jsstring \<Rightarrow> jsstring"

subsection \<open>Engine calls\<close>

definition logCall :: "call \<Rightarrow> state \<Rightarrow> state" where
  "logCall c st = st\<lparr>calls := calls st @ [c]\<rparr>"

definition newImage :: "state \<Rightarrow> nat \<times> bool \<Rightarrow> image \<times> state" where
  "newImage st ba =
     (\<lparr>img_handle = nextHandle st, img_bands = fst ba, img_alpha = snd ba\<rparr>,
      st\<lparr>nextHandle := Suc (nextHandle st)\<rparr>)"

definition newFromFile :: "world \<Rightarrow> state \<Rightarrow> asset \<Rightarrow> (jserror + image) \<times> state" where
  "newFromFile w st path =
     (case w_newFromFile w path of
        Inl e \<Rightarrow> (Inl e, logCall (NewFromFile path) st)
      | Inr ba \<Rightarrow> (case newImage (logCall (NewFromFile path) st) ba of
                    (img, st') \<Rightarrow> (Inr img, st')))"

definition newFromBuffer :: "world \<Rightarrow> state \<Rightarrow> bytes \<Rightarrow> (jserror + image) \<times> state" where
  "newFromBuffer w st buf =
     (case w_newFromBuffer w buf of
        Inl e \<Rightarrow> (Inl e, logCall (NewFromBuffer buf) st)
      | Inr ba \<Rightarrow> (case newImage (logCall (NewFromBuffer buf) st) ba of
                    (img, st') \<Rightarrow> (Inr img, st')))"

text \<open>\<open>img.bandjoin(255)\<close>: a new image with one more band, fully opaque, as its alpha.\<close>

definition bandjoin :: "world \<Rightarrow> state \<Rightarrow> image \<Rightarrow> (jserror + image) \<times> state" where
  "bandjoin w st img =
     (case w_bandjoin w img of
        Some e \<Rightarrow> (Inl e, logCall (Bandjoin img) st)
      | None \<Rightarrow> (case newImage (logCall (Bandjoin img) st) (Suc (img_bands img), True) of
                   (img', st') \<Rightarrow> (Inr img', st')))"

definition composite2 ::
  "world \<Rightarrow> state \<Rightarrow> image \<Rightarrow> image \<Rightarrow> int \<Rightarrow> int \<Rightarrow> (jserror + image) \<times> state" where
  "composite2 w st base overlay x y =
     (case w_composite2 w base overlay x y of
        Inl e \<Rightarrow> (Inl e, logCall (Composite2 base overlay x y) st)
      | Inr ba \<Rightarrow> (case newImage (logCall (Composite2 base overlay x y) st) ba of
                    (img, st') \<Rightarrow> (Inr img, st')))"

definition writeToBuffer :: "world \<Rightarrow> state \<Rightarrow> image \<Rightarrow> string \<Rightarrow> (jserror + bytes) \<times> state" where
  "writeToBuffer w st img suffix = (w_writeToBuffer w img suffix, logCall (WriteToBuffer img) st)"

text \<open>\<open>img[Symbol.dispose]()\<close>, which may throw.\<close>

definition dispose :: "world \<Rightarrow> state \<Rightarrow> image \<Rightarrow> (jserror + unit) \<times> state" where
  "dispose w st img =
     (if w_disposeThrows w (img_handle img)
      then (Inl (Error ''dispose failed''), logCall (Dispose (img_handle img)) st)
      else (Inr (), logCall (Dispose (img_handle img)) st))"

text \<open>\<open>try { img[Symbol.dispose]() } catch (_e) {}\<close>\<close>

definition tryDispose :: "world \<Rightarrow> state \<Rightarrow> image \<Rightarrow> state" where
  "tryDispose w st img = (case dispose w st img of (Inl e, st') \<Rightarrow> st' | (Inr u, st') \<Rightarrow> st')"

text \<open>\<open>if (img) { try { img[Symbol.dispose]() } catch (_e) {} }\<close>\<close>

definition disposeIfSet :: "world \<Rightarrow> state \<Rightarrow> image option \<Rightarrow> state" where
  "disposeIfSet w st v = (case v of None \<Rightarrow> st | Some img \<Rightarrow> tryDispose w st img)"

text \<open>\<open>getVips\<close>: awaits the module's \<open>vipsPromise\<close>; the cached instance changes nothing
  a caller can see.\<close>

definition getVips :: "world \<Rightarrow> jserror + unit" where
  "getVips w = (case w_vipsPromise w of Some e \<Rightarrow> Inl e | None \<Rightarrow> Inr ())"

subsection \<open>The renderer gate (\<open>ensureResvgInitialized\<close>)\<close>

text \<open>\<open>err instanceof Error && err.message.includes('Already initialized')\<close>\<close>

definition alreadyInitialized :: "jserror \<Rightarrow> bool" where
  "alreadyInitialized err =
     (case err of Error message \<Rightarrow> strIncludes message ''Already initialized'' | Thrown _ \<Rightarrow> False)"

text \<open>
  The gate stores the promise of an \<open>async\<close> arrow function that it calls on the spot:
  \<open>globalState.initializing = (async () => { try {...} catch (err) {...} })()\<close>.
  An async function runs synchronously up to its first \<open>await\<close>; only then does the call
  return its promise, and only then is the assignment made.  The body's first \<open>await\<close>
  is the one of \<open>initWasm(wasmBuffer)\<close>, after \<open>require.resolve\<close> and
  \<open>fs.readFileSync\<close>, which throw synchronously; \<open>w_loadWasm\<close> is the outcome of the
  two.  \<open>initWasm\<close> is itself an async function: it fails by rejecting.

  \<open>iifeStart\<close> is the body up to that \<open>await\<close>: either the body has ended, in its
  \<open>catch\<close>, and the call returns a settled promise, or it is suspended with the bytes
  read.  \<open>iifeResume\<close> is the body from the \<open>await\<close> on: the state it leaves and how the
  promise settles.
\<close>

datatype iife = Returned promise | Suspended bytes

definition iifeStart :: "world \<Rightarrow> state \<Rightarrow> iife \<times> state" where
  "iifeStart w st =
     (case w_loadWasm w of
        Inl err \<Rightarrow>
          if alreadyInitialized err
          then (Returned Fulfilled, st\<lparr>initialized := True\<rparr>)
          else (Returned (Rejected err), st\<lparr>initializing := None\<rparr>)
      | Inr wasmBuffer \<Rightarrow> (Suspended wasmBuffer, st))"

definition iifeResume :: "world \<Rightarrow> state \<Rightarrow> bytes \<Rightarrow> promise \<times> state" where
  "iifeResume w st wasmBuffer =
     (case w_initWasm w wasmBuffer of
        None \<Rightarrow> (Fulfilled, st\<lparr>initialized := True\<rparr>)
      | Some err \<Rightarrow>
          if alreadyInitialized err
          then (Fulfilled, st\<lparr>initialized := True\<rparr>)
          else (Rejected err, st\<lparr>initializing := None\<rparr>))"

definition awaitPromise :: "promise \<Rightarrow> jserror + unit" where
  "awaitPromise p = (case p of Fulfilled \<Rightarrow> Inr () | Rejected err \<Rightarrow> Inl err)"

text \<open>
  One call, run to its end with no other caller in between.  When the body was
  suspended, the assignment stores its promise first and the body resumes afterwards;
  the stored promise is written as what it settles to.  When the body ended before its
  first \<open>await\<close>, the assignment comes after everything the body did.
\<close>

definition ensureResvgInitialized :: "world \<Rightarrow> state \<Rightarrow> (jserror + unit) \<times> state" where
  "ensureResvgInitialized w st =
     (if initialized st then (Inr (), st)
      else case initializing st of
        Some p \<Rightarrow> (awaitPromise p, st)
      | None \<Rightarrow>
          (case iifeStart w st of
             (Returned p, st1) \<Rightarrow> (awaitPromise p, st1\<lparr>initializing := Some p\<rparr>)
           | (Suspended wasmBuffer, st1) \<Rightarrow>
               (let p = fst (iifeResume w st1 wasmBuffer)
                in (awaitPromise p,
                    snd (iifeResume w (st1\<lparr>initializing := Some p\<rparr>) wasmBuffer)))))"

section \<open>The pipeline\<close>

subsection \<open>Default indices\<close>

definition startsWith :: "string \<Rightarrow> string \<Rightarrow> bool" where
  "startsWith s p = (take (length p) s = p)"

definition endsWith :: "string \<Rightarrow> string \<Rightarrow> bool" where
  "endsWith s p = (length p \<le> length s \<and> drop (length s - length p) s = p)"

text \<open>\<open>shuffled[0]\<close>, which is \<open>undefined\<close> on an empty array.\<close>

definition firstOf :: "int list \<Rightarrow> index" where
  "firstOf xs = (case xs of [] \<Rightarrow> UndefinedIndex | i # _ \<Rightarrow> Index i)"

definition getRandomBackground :: "world \<Rightarrow> jserror + index" where
  "getRandomBackground w =
     (case w_readdirSync w BackgroundDir of
        Inl e \<Rightarrow> Inl e
      | Inr files \<Rightarrow>
          (let backgrounds = filter (\<lambda>f. startsWith f ''c'' \<and> endsWith f ''.avif'') files;
               indices = [1 .. int (length backgrounds)];
               shuffled = w_shuffleArray w indices
           in Inr (firstOf shuffled)))"

text \<open>An inherited property has no \<open>emotion_count\<close>: \<open>Array.from({ length: undefined })\<close>
  is empty.\<close>

definition getRandomEmotion :: "world \<Rightarrow> assets \<Rightarrow> string \<Rightarrow> index" where
  "getRandomEmotion w a character =
     (case getProperty (charaMeta a) character of
        Undefined \<Rightarrow> Index 1
      | Own meta \<Rightarrow> firstOf (w_shuffleArray w [1 .. int (emotion_count meta)])
      | Inherited \<Rightarrow> firstOf (w_shuffleArray w []))"

subsection \<open>\<open>generateBaseImage\<close>\<close>

text \<open>The document of one name caption, built inside the loop over the captions.\<close>

definition nameCaptionSvg :: "(jsstring \<Rightarrow> jsstring) \<Rightarrow> TextConfig \<Rightarrow> svg" where
  "nameCaptionSvg encodeXML config =
     (let textLength = strlen (cfg_text config);
          svgWidth = jsadd (jsmul (jsmul (num (cfg_font_size config)) textLength) (toDouble (12 / 10)))
                           (Fin 20);
          svgHeight = jsadd (jsmul (num (cfg_font_size config)) (toDouble (15 / 10))) (Fin 10);
          baselineY = jsmul (num (cfg_font_size config)) (toDouble (12 / 10));
          escapedText = encodeXML (cfg_text config)
      in \<lparr>svg_width = svgWidth, svg_height = svgHeight,
          svg_runs =
            [\<lparr>run_x = Fin 2, run_y = jsadd baselineY (Fin 2),
               run_font_size = num (cfg_font_size config),
               run_fill = Colour ''#000000'', run_fill_opacity = None,
               run_font_family = ''CustomFont'', run_content = escapedText\<rparr>,
             \<lparr>run_x = Fin 0, run_y = baselineY,
               run_font_size = num (cfg_font_size config),
               run_fill = Rgb (cfg_font_color config), run_fill_opacity = None,
               run_font_family = ''CustomFont'', run_content = escapedText\<rparr>]\<rparr>)"

text \<open>
  The loop \<open>for (const config of textConfigs[character])\<close>, entered with the accumulator
  \<open>result\<close>.  It returns how it ended, the value of \<open>result\<close> at that moment and the
  state.
\<close>

fun nameCaptions ::
  "world \<Rightarrow> bytes \<Rightarrow> state \<Rightarrow> image \<Rightarrow> TextConfig list \<Rightarrow> (jserror + unit) \<times> image \<times> state" where
  "nameCaptions w fontBuffer st result [] = (Inr (), result, st)"
| "nameCaptions w fontBuffer st result (config # rest) =
     (if cfg_text config = [] then nameCaptions w fontBuffer st result rest
      else
        (case w_render w (nameCaptionSvg (w_encodeXML w) config) fontBuffer of
           Inl e \<Rightarrow> (Inl e, result, st)
         | Inr namePngBuffer \<Rightarrow>
        (case newFromBuffer w st namePngBuffer of
           (Inl e, st1) \<Rightarrow> (Inl e, result, st1)
         | (Inr nameImage, st1) \<Rightarrow>
        (case composite2 w st1 result nameImage
                (fst (cfg_position config)) (snd (cfg_position config)) of
           (Inl e, st2) \<Rightarrow> (Inl e, result, st2)
         | (Inr tempResult, st2) \<Rightarrow>
             nameCaptions w fontBuffer
               (tryDispose w (tryDispose w st2 result) nameImage) tempResult rest))))"

text \<open>The block \<open>if (textConfigs[character]) { ... }\<close>.\<close>

definition nameCaptionStage ::
  "world \<Rightarrow> assets \<Rightarrow> state \<Rightarrow> string \<Rightarrow> image \<Rightarrow> (jserror + unit) \<times> image \<times> state" where
  "nameCaptionStage w a st character result =
     (case getProperty (textConfigs a) character of
        Undefined \<Rightarrow> (Inr (), result, st)
      | found \<Rightarrow>
        (case ensureResvgInitialized w st of
           (Inl e, st1) \<Rightarrow> (Inl e, result, st1)
         | (Inr u, st1) \<Rightarrow>
        (case w_readFileSync w (fontPathOf a character) of
           Inl e \<Rightarrow> (Inl e, result, st1)
         | Inr fontBuffer \<Rightarrow>
        (case found of
           Own configs \<Rightarrow> nameCaptions w fontBuffer st1 result configs
         | _ \<Rightarrow> (Inl (Error ''textConfigs[character] is not iterable''), result, st1)))))"

type_synonym locals = "image option \<times> image option \<times> image option"

text \<open>
  The \<open>try\<close> block: how it ended, the variables \<open>(bgImage, charImage, result)\<close> at
  that moment, and the state.
\<close>

definition generateBaseImageTry ::
  "world \<Rightarrow> assets \<Rightarrow> state \<Rightarrow> string \<Rightarrow> index \<Rightarrow> index \<Rightarrow> (jserror + bytes) \<times> locals \<times> state" where
  "generateBaseImageTry w a st character backgroundIndex emotionIndex =
     (case newFromFile w st (BackgroundFile backgroundIndex) of
        (Inl e, st1) \<Rightarrow> (Inl e, (None, None, None), st1)
      | (Inr bgImage, st1) \<Rightarrow>
     (case newFromFile w st1 (CharaFile character emotionIndex) of
        (Inl e, st2) \<Rightarrow> (Inl e, (Some bgImage, None, None), st2)
      | (Inr charImage, st2) \<Rightarrow>
     (case composite2 w st2 bgImage charImage 0 134 of
        (Inl e, st3) \<Rightarrow> (Inl e, (Some bgImage, Some charImage, None), st3)
      | (Inr result0, st3) \<Rightarrow>
     (case nameCaptionStage w a st3 character result0 of
        (Inl e, result, st4) \<Rightarrow> (Inl e, (Some bgImage, Some charImage, Some result), st4)
      | (Inr u, result, st4) \<Rightarrow>
     (case writeToBuffer w st4 result ''.avif'' of
        (Inl e, st5) \<Rightarrow> (Inl e, (Some bgImage, Some charImage, Some result), st5)
      | (Inr out, st5) \<Rightarrow> (Inr out, (Some bgImage, Some charImage, Some result), st5))))))"

text \<open>The \<open>finally\<close> block of both functions: the third variable, the second, the first.\<close>

definition finallyDispose :: "world \<Rightarrow> state \<Rightarrow> locals \<Rightarrow> state" where
  "finallyDispose w st vars =
     (case vars of (first, second, third) \<Rightarrow>
        disposeIfSet w (disposeIfSet w (disposeIfSet w st third) second) first)"

definition generateBaseImage ::
  "world \<Rightarrow> assets \<Rightarrow> state \<Rightarrow> string \<Rightarrow> index \<Rightarrow> index \<Rightarrow> (jserror + bytes) \<times> state" where
  "generateBaseImage w a st character backgroundIndex emotionIndex =
     (case getVips w of
        Inl e \<Rightarrow> (Inl e, st)
      | Inr vips \<Rightarrow>
          (case generateBaseImageTry w a st character backgroundIndex emotionIndex of
             (outcome, vars, st') \<Rightarrow> (outcome, finallyDispose w st' vars)))"

subsection \<open>\<open>drawUserText\<close>\<close>

text \<open>
  The \<open>try\<close> block: how it ended, the variables \<open>(image, textImage, result)\<close> at that
  moment, and the state.  \<open>image = image.bandjoin(255)\<close> and
  \<open>textImage = textImage.bandjoin(255)\<close> overwrite the variable with the new image:
  \<open>image0\<close> and \<open>textImage0\<close> are the variables before, \<open>image1\<close> and
  \<open>textImage\<close> after.
\<close>

definition drawUserTextTry ::
  "world \<Rightarrow> state \<Rightarrow> bytes \<Rightarrow> jsstring \<Rightarrow> (int \<times> int) \<times> (int \<times> int) \<Rightarrow> int \<Rightarrow> asset
     \<Rightarrow> (jserror + bytes) \<times> locals \<times> state" where
  "drawUserTextTry w st baseImage text boxRect initialFontSize fontPath =
     (case ensureResvgInitialized w st of
        (Inl e, st1) \<Rightarrow> (Inl e, (None, None, None), st1)
      | (Inr u, st1) \<Rightarrow>
     (case newFromBuffer w st1 baseImage of
        (Inl e, st2) \<Rightarrow> (Inl e, (None, None, None), st2)
      | (Inr image0, st2) \<Rightarrow>
     (case (if \<not> img_alpha image0 then bandjoin w st2 image0 else (Inr image0, st2)) of
        (Inl e, st3) \<Rightarrow> (Inl e, (Some image0, None, None), st3)
      | (Inr image1, st3) \<Rightarrow>
     (case boxRect of ((x1, y1), (x2, y2)) \<Rightarrow>
     (let boxWidth = x2 - x1; boxHeight = y2 - y1 in
     (case w_readFileSync w fontPath of
        Inl e \<Rightarrow> (Inl e, (Some image1, None, None), st3)
      | Inr fontBuffer \<Rightarrow>
     (let fontSize = chooseFontSize text boxWidth boxHeight initialFontSize;
          svg = generateTextSvg (w_encodeXML w) text (num boxWidth) (num fontSize)
                  (Colour ''#FFFFFF'') in
     (case w_render w svg fontBuffer of
        Inl e \<Rightarrow> (Inl e, (Some image1, None, None), st3)
      | Inr pngBuffer \<Rightarrow>
     (case newFromBuffer w st3 pngBuffer of
        (Inl e, st4) \<Rightarrow> (Inl e, (Some image1, None, None), st4)
      | (Inr textImage0, st4) \<Rightarrow>
     (case (if \<not> img_alpha textImage0 then bandjoin w st4 textImage0
            else (Inr textImage0, st4)) of
        (Inl e, st5) \<Rightarrow> (Inl e, (Some image1, Some textImage0, None), st5)
      | (Inr textImage, st5) \<Rightarrow>
     (let textX = x1 + 20; textY = y1 + 20 in
     (case composite2 w st5 image1 textImage textX textY of
        (Inl e, st6) \<Rightarrow> (Inl e, (Some image1, Some textImage, None), st6)
      | (Inr result, st6) \<Rightarrow>
     (case writeToBuffer w st6 result ''.avif'' of
        (Inl e, st7) \<Rightarrow> (Inl e, (Some image1, Some textImage, Some result), st7)
      | (Inr out, st7) \<Rightarrow>
          (Inr out, (Some image1, Some textImage, Some result), st7))))))))))))))"

text \<open>
  \<open>getVips\<close> is awaited before the \<open>try\<close>; the \<open>catch\<close> returns \<open>baseImage\<close>; the
  \<open>finally\<close> block runs on both ways out.
\<close>

definition drawUserText ::
  "world \<Rightarrow> state \<Rightarrow> bytes \<Rightarrow> jsstring \<Rightarrow> (int \<times> int) \<times> (int \<times> int) \<Rightarrow> int \<Rightarrow> asset
     \<Rightarrow> (jserror + bytes) \<times> state" where
  "drawUserText w st baseImage text boxRect initialFontSize fontPath =
     (case getVips w of
        Inl e \<Rightarrow> (Inl e, st)
      | Inr vips \<Rightarrow>
          (case drawUserTextTry w st baseImage text boxRect initialFontSize fontPath of
             (Inl err, vars, st') \<Rightarrow> (Inr baseImage, finallyDispose w st' vars)
           | (Inr out, vars, st') \<Rightarrow> (Inr out, finallyDispose w st' vars)))"

subsection \<open>\<open>generateTextBoxImage\<close>\<close>

definition USER_TEXT_BOX_RECT :: "(int \<times> int) \<times> (int \<times> int)" where
  "USER_TEXT_BOX_RECT = ((728, 355), (2339, 800))"

definition USER_TEXT_FONT_SIZE :: int where
  "USER_TEXT_FONT_SIZE = 120"

text \<open>\<open>!charaMeta[character]\<close>: an own entry is an object, an inherited value is truthy.\<close>

definition truthy :: "'a property \<Rightarrow> bool" where
  "truthy v = (case v of Undefined \<Rightarrow> False | _ \<Rightarrow> True)"

definition generateTextBoxImage ::
  "world \<Rightarrow> assets \<Rightarrow> state \<Rightarrow> string \<Rightarrow> jsstring \<Rightarrow> int option \<Rightarrow> int option
     \<Rightarrow> (jserror + bytes) \<times> state" where
  "generateTextBoxImage w a st character text backgroundIndex emotionIndex =
     (if \<not> truthy (getProperty (charaMeta a) character)
      then (Inl (Error (''Unknown character: '' @ character)), st)
      else
        (case (case backgroundIndex of
                 Some i \<Rightarrow> Inr (Index i)
               | None \<Rightarrow> getRandomBackground w) of
           Inl e \<Rightarrow> (Inl e, st)
         | Inr bgIndex \<Rightarrow>
        (let emIndex = (case emotionIndex of
                          Some i \<Rightarrow> Index i
                        | None \<Rightarrow> getRandomEmotion w a character) in
        (case generateBaseImage w a st character bgIndex emIndex of
           (Inl e, st1) \<Rightarrow> (Inl e, st1)
         | (Inr baseImage, st1) \<Rightarrow>
             drawUserText w st1 baseImage text USER_TEXT_BOX_RECT USER_TEXT_FONT_SIZE
               (fontPathOf a character)))))"

text \<open>\<open>getAvailableCharacters\<close> lists \<open>Object.entries(charaMeta)\<close>: the catalog is the
  set of own keys.\<close>

definition inCatalog :: "assets \<Rightarrow> string \<Rightarrow> bool" where
  "inCatalog a character = (character \<in> dom (charaMeta a))"

section \<open>Concurrent invocations at the two gates\<close>

text \<open>
  JavaScript runs one task at a time, and an async function runs without interruption
  from one \<open>await\<close> to the next.  So \<open>n\<close> concurrent invocations are \<open>n\<close> callers whose
  steps between two \<open>await\<close>s are atomic and interleave in any order: a schedule is a
  list of events, each possible in the state the former ones have left.
\<close>

text \<open>A promise of the async arrow function: suspended at \<open>await initWasm(wasmBuffer)\<close>
  with the bytes it read, or settled.\<close>

datatype pstate = Pending bytes | Settled promise

text \<open>An invocation: not yet at the gate, suspended at its \<open>await\<close> of a promise, returned,
  or ended by a thrown error.\<close>

datatype caller = Idle | Awaiting nat | Done | Failed jserror

datatype event = Call nat | Settle nat | Resume nat

text \<open>
  \<open>g_initialized\<close> and \<open>g_initializing\<close> are the fields of \<open>globalState\<close>, the second a
  reference into \<open>g_promises\<close>, the promises created so far; \<open>g_initWasmCalls\<close> counts the
  calls of \<open>initWasm\<close>.
\<close>

record gate =
  g_initialized :: bool
  g_initializing :: "nat option"
  g_promises :: "pstate list"
  g_initWasmCalls :: nat
  g_callers :: "caller list"

definition initialGate :: "nat \<Rightarrow> gate" where
  "initialGate n =
     \<lparr>g_initialized = False, g_initializing = None, g_promises = [], g_initWasmCalls = 0,
      g_callers = replicate n Idle\<rparr>"

text \<open>
  \<open>Call i\<close>: invocation \<open>i\<close> runs \<open>ensureResvgInitialized\<close> from its entry to its first
  \<open>await\<close> or \<open>return\<close>; when it is the one to call the async arrow function, that
  function's synchronous part runs inside this step, and the caller then awaits the stored
  promise.  \<open>Settle p\<close>: the async arrow function behind promise \<open>p\<close> resumes after
  \<open>await initWasm(wasmBuffer)\<close> and runs to its end.  \<open>Resume i\<close>: invocation \<open>i\<close> resumes
  after its \<open>await\<close>, once the promise has settled.  A step that is not possible is \<open>None\<close>.
\<close>

fun gateStep :: "world \<Rightarrow> gate \<Rightarrow> event \<Rightarrow> gate option" where
  "gateStep w c (Call i) =
     (if i < length (g_callers c) \<and> g_callers c ! i = Idle then
        (if g_initialized c then Some (c\<lparr>g_callers := (g_callers c)[i := Done]\<rparr>)
         else case g_initializing c of
           Some p \<Rightarrow> Some (c\<lparr>g_callers := (g_callers c)[i := Awaiting p]\<rparr>)
         | None \<Rightarrow>
             (let p = length (g_promises c) in
              case w_loadWasm w of
                Inl err \<Rightarrow>
                  if alreadyInitialized err
                  then Some (c\<lparr>g_initialized := True, g_initializing := Some p,
                               g_promises := g_promises c @ [Settled Fulfilled],
                               g_callers := (g_callers c)[i := Awaiting p]\<rparr>)
                  else Some (c\<lparr>g_initializing := Some p,
                               g_promises := g_promises c @ [Settled (Rejected err)],
                               g_callers := (g_callers c)[i := Awaiting p]\<rparr>)
              | Inr wasmBuffer \<Rightarrow>
                  Some (c\<lparr>g_initializing := Some p,
                          g_promises := g_promises c @ [Pending wasmBuffer],
                          g_initWasmCalls := Suc (g_initWasmCalls c),
                          g_callers := (g_callers c)[i := Awaiting p]\<rparr>)))
      else None)"
| "gateStep w c (Settle p) =
     (if p < length (g_promises c) then
        (case g_promises c ! p of
           Pending wasmBuffer \<Rightarrow>
             (case w_initWasm w wasmBuffer of
                None \<Rightarrow> Some (c\<lparr>g_initialized := True,
                                  g_promises := (g_promises c)[p := Settled Fulfilled]\<rparr>)
              | Some err \<Rightarrow>
                  if alreadyInitialized err
                  then Some (c\<lparr>g_initialized := True,
                               g_promises := (g_promises c)[p := Settled Fulfilled]\<rparr>)
                  else Some (c\<lparr>g_initializing := None,
                               g_promises := (g_promises c)[p := Settled (Rejected err)]\<rparr>))
         | Settled s \<Rightarrow> None)
      else None)"
| "gateStep w c (Resume i) =
     (if i < length (g_callers c) then
        (case g_callers c ! i of
           Awaiting p \<Rightarrow>
             (if p < length (g_promises c) then
                (case g_promises c ! p of
                   Settled Fulfilled \<Rightarrow> Some (c\<lparr>g_callers := (g_callers c)[i := Done]\<rparr>)
                 | Settled (Rejected err) \<Rightarrow>
                     Some (c\<lparr>g_callers := (g_callers c)[i := Failed err]\<rparr>)
                 | Pending wasmBuffer \<Rightarrow> None)
              else None)
         | _ \<Rightarrow> None)
      else None)"

fun gateRun :: "world \<Rightarrow> gate \<Rightarrow> event list \<Rightarrow> gate option" where
  "gateRun w c [] = Some c"
| "gateRun w c (e # es) = (case gateStep w c e of None \<Rightarrow> None | Some c' \<Rightarrow> gateRun w c' es)"

text \<open>
  The raster-engine gate.  \<open>vipsPromise\<close> is a constant of the module: the one call
  \<open>Vips({...})\<close> is made when the module is loaded, before any invocation, and
  \<open>v_launches\<close> counts it.  \<open>v_promise\<close> is \<open>None\<close> while that promise is pending, and
  \<open>v_instance\<close> says that \<open>vipsInstance\<close> is set.  \<open>getVips\<close> returns at once when it is,
  and otherwise awaits the promise and stores its value.
\<close>

record engine =
  v_instance :: bool
  v_promise :: "promise option"
  v_launches :: nat
  v_callers :: "caller list"

definition initialEngine :: "nat \<Rightarrow> engine" where
  "initialEngine n =
     \<lparr>v_instance = False, v_promise = None, v_launches = 1, v_callers = replicate n Idle\<rparr>"

fun engineStep :: "world \<Rightarrow> engine \<Rightarrow> event \<Rightarrow> engine option" where
  "engineStep w c (Call i) =
     (if i < length (v_callers c) \<and> v_callers c ! i = Idle then
        (if v_instance c then Some (c\<lparr>v_callers := (v_callers c)[i := Done]\<rparr>)
         else Some (c\<lparr>v_callers := (v_callers c)[i := Awaiting 0]\<rparr>))
      else None)"
| "engineStep w c (Settle p) =
     (if p = 0 \<and> v_promise c = None then
        Some (c\<lparr>v_promise := Some (case w_vipsPromise w of
                                       None \<Rightarrow> Fulfilled | Some e \<Rightarrow> Rejected e)\<rparr>)
      else None)"
| "engineStep w c (Resume i) =
     (if i < length (v_callers c) then
        (case v_callers c ! i of
           Awaiting p \<Rightarrow>
             (case v_promise c of
                Some Fulfilled \<Rightarrow>
                  Some (c\<lparr>v_instance := True, v_callers := (v_callers c)[i := Done]\<rparr>)
              | Some (Rejected e) \<Rightarrow> Some (c\<lparr>v_callers := (v_callers c)[i := Failed e]\<rparr>)
              | None \<Rightarrow> None)
         | _ \<Rightarrow> None)
      else None)"

fun engineRun :: "world \<Rightarrow> engine \<Rightarrow> event list \<Rightarrow> engine option" where
  "engineRun w c [] = Some c"
| "engineRun w c (e # es) =
     (case engineStep w c e of None \<Rightarrow> None | Some c' \<Rightarrow> engineRun w c' es)"

section \<open>Observations on a run\<close>

text \<open>How often the engine was asked to release the native object \<open>h\<close>.\<close>

definition disposeCount :: "state \<Rightarrow> nat \<Rightarrow> nat" where
  "disposeCount st h = count_list (calls st) (Dispose h)"

text \<open>A run drawn at reduced opacity; a run without a \<open>fill-opacity\<close> attribute is opaque.\<close>

definition reducedOpacity :: "textRun \<Rightarrow> bool" where
  "reducedOpacity r = (case run_fill_opacity r of None \<Rightarrow> False | Some q \<Rightarrow> q < 1)"



section \<open>Concrete inputs\<close>

text \<open>
  A catalog with one character and one name caption, a process that has initialised
  nothing yet, and worlds in which every file and every call is fine: backgrounds are
  RGB, the character sprite and every decoded buffer but \<open>[7]\<close> are RGBA.
\<close>

definition freshState :: state where
  "freshState = \<lparr>initialized = False, initializing = None, nextHandle = 0, calls = []\<rparr>"

definition exampleAssets :: assets where
  "exampleAssets =
     \<lparr>charaMeta = [''ema'' \<mapsto> \<lparr>full_name = ''Ema'', emotion_count = 8, font = ''font1.ttf''\<rparr>],
      textConfigs = [''ema'' \<mapsto> [\<lparr>cfg_text = [0x45, 0x6D, 0x61], cfg_position = (759, 63),
                                   cfg_font_color = [253, 145, 175], cfg_font_size = 186\<rparr>]]\<rparr>"

definition exampleWorld :: world where
  "exampleWorld =
     \<lparr>w_vipsPromise = None,
      w_loadWasm = Inr [0],
      w_initWasm = (\<lambda>wasm. None),
      w_readFileSync = (\<lambda>path. Inr [1]),
      w_readdirSync = (\<lambda>path. Inr [''c1.avif'', ''c2.avif'', ''readme.txt'']),
      w_shuffleArray = (\<lambda>xs. xs),
      w_newFromFile = (\<lambda>path. case path of
           BackgroundFile (Index i) \<Rightarrow> Inr (3, False)
         | CharaFile c (Index i) \<Rightarrow>
             if c = ''ema'' then Inr (4, True) else Inl (Error ''file not found'')
         | _ \<Rightarrow> Inl (Error ''file not found'')),
      w_newFromBuffer = (\<lambda>buf. if buf = [7] then Inr (3, False) else Inr (4, True)),
      w_bandjoin = (\<lambda>img. None),
      w_composite2 = (\<lambda>base overlay x y. Inr (4, True)),
      w_writeToBuffer = (\<lambda>img suffix. Inr [of_nat (img_handle img)]),
      w_disposeThrows = (\<lambda>h. False),
      w_render = (\<lambda>doc fontBuffer. Inr [2]),
      w_encodeXML = (\<lambda>s. s)\<rparr>"



section \<open>Notions used in the proofs\<close>

text \<open>
  The wrapping loop with the current line kept as the list of its characters, the
  condition under which a run of characters is taken into the current line without a
  break, and the lists of characters that \<open>codePoints\<close> can produce: a one-unit
  character that is a high surrogate is never followed by a character starting with a
  low surrogate.
\<close>

fun wrapSegs :: "jsnum \<Rightarrow> jsstring list \<Rightarrow> jsstring list \<Rightarrow> jsstring list list" where
  "wrapSegs m cur [] = (if concat cur \<noteq> [] then [cur] else [])"
| "wrapSegs m cur (c # cs) =
     (if jsle m (strlen (concat cur)) then cur # wrapSegs m [c] cs
      else wrapSegs m (cur @ [c]) cs)"

fun absorbs :: "jsnum \<Rightarrow> jsstring list \<Rightarrow> jsstring list \<Rightarrow> bool" where
  "absorbs m cur [] = True"
| "absorbs m cur (c # cs) = (\<not> jsle m (strlen (concat cur)) \<and> absorbs m (cur @ [c]) cs)"

fun startsLow :: "jsstring list \<Rightarrow> bool" where
  "startsLow ((v # _) # _) = isLow v"
| "startsLow _ = False"

fun wellseg :: "jsstring list \<Rightarrow> bool" where
  "wellseg [] = True"
| "wellseg ([u] # cs) = (\<not> (isHigh u \<and> startsLow cs) \<and> wellseg cs)"
| "wellseg ([u, v] # cs) = (isHigh u \<and> isLow v \<and> wellseg cs)"
| "wellseg (_ # cs) = False"


text \<open>
  For the schedules of the gates: the work left in a state, which every step decreases,
  and the states a schedule can reach when the initialization succeeds (nothing started
  yet; one attempt in flight; ready).
\<close>

fun callerWeight :: "caller \<Rightarrow> nat" where
  "callerWeight Idle = 3"
| "callerWeight (Awaiting p) = 1"
| "callerWeight _ = 0"

fun promiseWeight :: "pstate \<Rightarrow> nat" where
  "promiseWeight (Pending b) = 1"
| "promiseWeight (Settled s) = 0"

definition gateWork :: "gate \<Rightarrow> nat" where
  "gateWork c = sum_list (map callerWeight (g_callers c)) + sum_list (map promiseWeight (g_promises c))"

definition engineWork :: "engine \<Rightarrow> nat" where
  "engineWork c = sum_list (map callerWeight (v_callers c)) + (if v_promise c = None then 1 else 0)"

definition gateInv :: "nat \<Rightarrow> bytes \<Rightarrow> gate \<Rightarrow> bool" where
  "gateInv n b c =
     (length (g_callers c) = n \<and> set (g_callers c) \<subseteq> {Idle, Awaiting 0, Done} \<and>
      ((g_promises c = [] \<and> g_initializing c = None \<and> \<not> g_initialized c \<and>
          g_initWasmCalls c = 0 \<and> set (g_callers c) \<subseteq> {Idle})
       \<or> (g_promises c = [Pending b] \<and> g_initializing c = Some 0 \<and> \<not> g_initialized c \<and>
          g_initWasmCalls c = 1)
       \<or> (g_promises c = [Settled Fulfilled] \<and> g_initializing c = Some 0 \<and> g_initialized c \<and>
          g_initWasmCalls c = 1)))"

definition engineInv :: "nat \<Rightarrow> engine \<Rightarrow> bool" where
  "engineInv n c =
     (length (v_callers c) = n \<and> set (v_callers c) \<subseteq> {Idle, Awaiting 0, Done} \<and>
      v_launches c = 1 \<and>
      ((v_promise c = None \<and> \<not> v_instance c \<and> Done \<notin> set (v_callers c))
       \<or> (v_promise c = Some Fulfilled \<and> (Done \<in> set (v_callers c) \<longrightarrow> v_instance c))))"

section \<open>Properties\<close>

subsection \<open>Rounding to a double\<close>

text \<open>
  \<open>binaryExponent\<close> is the exponent, and \<open>roundTiesToEven\<close> is within one half of its
  argument; so \<open>toDouble x\<close> is a multiple of the spacing at \<open>x\<close> nearest to \<open>x\<close>.  Below
  \<open>2 ^ 64\<close> no result is an infinity, which leaves the evaluation of a rounding free of
  the comparison with \<open>2 ^ 1024\<close>.
\<close>

lemma pow2_pos: "0 < pow2 k"
  by (simp add: pow2_def)

lemma pow2_powr: "pow2 k = 2 powr of_int k"
proof (cases "0 \<le> k")
  case True
  then have "2 powr real_of_int k = 2 powr real (nat k)" by simp
  also have "\<dots> = 2 ^ nat k" by (simp add: powr_realpow)
  finally show ?thesis using True by (simp add: pow2_def)
next
  case False
  then have "2 powr real_of_int k = 2 powr (- real (nat (- k)))" by simp
  also have "\<dots> = 1 / 2 ^ nat (- k)" by (simp add: powr_minus_divide powr_realpow)
  finally show ?thesis using False by (simp add: pow2_def)
qed

lemma pow2_mono: "j \<le> k \<Longrightarrow> pow2 j \<le> pow2 k"
  by (simp add: pow2_powr)

lemma pow2_less_iff: "pow2 j < pow2 k \<longleftrightarrow> j < k"
  by (simp add: pow2_powr)

lemma pow2_nat: "0 \<le> k \<Longrightarrow> pow2 k = 2 ^ nat k"
  by (simp add: pow2_def)

lemma pow2_neg: "k \<le> 0 \<Longrightarrow> pow2 k = 1 / 2 ^ nat (- k)"
  by (simp add: pow2_def)

lemma binaryExponent_bounds:
  assumes "0 < a"
  shows "pow2 (binaryExponent a) \<le> a \<and> a < pow2 (binaryExponent a + 1)"
proof (cases "1 \<le> a")
  case True
  define n where "n = \<lfloor>a\<rfloor>"
  define b where "b = bitlen n"
  have n: "0 < n" using True by (simp add: n_def)
  have b: "2 ^ nat (b - 1) \<le> n \<and> n < 2 ^ nat b"
    unfolding b_def using bitlen_bounds [OF n] .
  have b1: "1 \<le> b" using n bitlen_eq_zero_iff [of n] bitlen_nonneg [of n] by (simp add: b_def)
  have e: "binaryExponent a = b - 1" using True by (simp add: binaryExponent_def b_def n_def)
  have "(2::real) ^ nat (b - 1) \<le> of_int n"
    using b by (metis of_int_le_iff of_int_numeral of_int_power)
  also have "\<dots> \<le> a" by (simp add: n_def)
  finally have lo: "pow2 (b - 1) \<le> a" using b1 by (simp add: pow2_nat)
  have "n + 1 \<le> 2 ^ nat b" using b by simp
  then have "real_of_int (n + 1) \<le> 2 ^ nat b"
    by (metis of_int_le_iff of_int_numeral of_int_power)
  moreover have "a < real_of_int (n + 1)" by (simp add: n_def)
  ultimately have hi: "a < pow2 b" using b1 by (simp add: pow2_nat)
  show ?thesis using lo hi by (simp add: e)
next
  case False
  define c where "c = \<lceil>1 / a\<rceil>"
  define n where "n = c - 1"
  define b where "b = bitlen n"
  have inv: "1 < 1 / a" using False assms by simp
  have n: "0 < n" using inv by (simp add: n_def c_def less_ceiling_iff)
  have b: "2 ^ nat (b - 1) \<le> n \<and> n < 2 ^ nat b"
    unfolding b_def using bitlen_bounds [OF n] .
  have b1: "1 \<le> b" using n bitlen_eq_zero_iff [of n] bitlen_nonneg [of n] by (simp add: b_def)
  have e: "binaryExponent a = - b" using False by (simp add: binaryExponent_def b_def n_def c_def)
  have "c \<le> 2 ^ nat b" using b by (simp add: n_def)
  then have "real_of_int c \<le> 2 ^ nat b"
    by (metis of_int_le_iff of_int_numeral of_int_power)
  moreover have "1 / a \<le> real_of_int c" by (simp add: c_def)
  ultimately have "1 / a \<le> 2 ^ nat b" by linarith
  then have "1 \<le> 2 ^ nat b * a" using assms by (simp add: field_simps)
  then have lo: "pow2 (- b) \<le> a" using b1 by (simp add: pow2_neg field_simps)
  have "(2::real) ^ nat (b - 1) \<le> real_of_int n"
    using b by (metis of_int_le_iff of_int_numeral of_int_power)
  moreover have "real_of_int n < 1 / a" unfolding n_def c_def by linarith
  ultimately have "2 ^ nat (b - 1) < 1 / a" by linarith
  then have "2 ^ nat (b - 1) * a < 1" using assms by (simp add: field_simps)
  moreover have "nat (- (1 - b)) = nat (b - 1)" by simp
  ultimately have hi: "a < pow2 (1 - b)" using b1 by (simp add: pow2_neg field_simps)
  show ?thesis using lo hi by (simp add: e)
qed

lemma roundTiesToEven_tie:
  "roundTiesToEven (of_int k + 1 / 2) = (if even k then k else k + 1)"
proof -
  have "\<lfloor>real_of_int k + 1 / 2\<rfloor> = k" by linarith
  then show ?thesis by (simp add: roundTiesToEven_def)
qed

lemma roundTiesToEven_nearest: "\<bar>of_int (roundTiesToEven y) - y\<bar> \<le> 1 / 2"
  by (simp add: roundTiesToEven_def Let_def)

lemma toDouble_finite:
  assumes "0 < x" "x < 2 ^ 64"
  shows "toDouble x =
           (let e = max (binaryExponent x) (- 1022); ulp = pow2 (e - 52)
            in Fin (of_int (roundTiesToEven (x / ulp)) * ulp))"
proof -
  define e where "e = max (binaryExponent x) (- 1022)"
  define ulp where "ulp = pow2 (e - 52)"
  define r where "r = real_of_int (roundTiesToEven (x / ulp)) * ulp"
  have "pow2 (binaryExponent x) < pow2 64"
    using binaryExponent_bounds [OF assms(1)] assms(2) by (simp add: pow2_nat)
  then have "binaryExponent x < 64" by (simp add: pow2_less_iff)
  then have e: "e \<le> 63" by (simp add: e_def)
  have u0: "0 < ulp" by (simp add: ulp_def pow2_pos)
  have "ulp \<le> pow2 11" unfolding ulp_def using e by (intro pow2_mono) simp
  then have u: "ulp \<le> 2 ^ 11" by (simp add: pow2_nat)
  have "real_of_int (roundTiesToEven (x / ulp)) \<le> x / ulp + 1 / 2"
    using roundTiesToEven_nearest [of "x / ulp"] by linarith
  then have "r \<le> (x / ulp + 1 / 2) * ulp"
    unfolding r_def using u0 by (simp add: mult_right_mono)
  also have "\<dots> = x + ulp / 2" using u0 by (simp add: field_simps)
  also have "\<dots> < 2 ^ 64 + 2 ^ 11" using assms(2) u by simp
  also have "\<dots> < pow2 1024" by (simp add: pow2_nat)
  finally have "\<not> pow2 1024 \<le> r" by simp
  then show ?thesis using assms(1) by (simp add: toDouble_def Let_def e_def ulp_def r_def)
qed

lemma toDouble_literals:
  "toDouble (12 / 10) = Fin (5404319552844595 / 4503599627370496)"
  "toDouble (3 / 10) = Fin (5404319552844595 / 18014398509481984)"
  "toDouble (15 / 10) = Fin (3 / 2)"
  by (simp_all add: toDouble_finite roundTiesToEven_def binaryExponent_def pow2_def compute_bitlen)

lemma toDouble_zero: "toDouble 0 = Fin 0"
  by (simp add: toDouble_def)

lemmas double_eval =
  toDouble_zero toDouble_finite roundTiesToEven_def binaryExponent_def pow2_def compute_bitlen



text \<open>
  A height that the rounding decides: six characters in a box 28 wide and 210 high, at
  size 28, make six lines of height \<open>28 * 1.2\<close>, above a margin of \<open>28 * 0.3\<close>.  In real
  numbers the height is 210 and fits; in doubles \<open>28 * 1.2\<close> is rounded up, the sum is
  \<open>210.00000000000003\<close>, and the size is refused.
\<close>

lemma heightFits_rounding_example:
  "jsmul (Fin 28) (toDouble (12 / 10)) = Fin (4728779608739021 / 2 ^ 47) \<and>
   jsadd (jsmul (Fin 6) (jsmul (Fin 28) (toDouble (12 / 10)))) (jsmul (Fin 28) (toDouble (3 / 10)))
     = Fin (210 + 1 / 2 ^ 45) \<and>
   \<not> heightFits (replicate 6 0x41) 28 210 28 \<and>
   chooseFontSize (replicate 6 0x41) 28 210 34 = 34"
  by (simp add: chooseFontSize_def heightFits_def strlen_def fontSizeLoop.simps double_eval)

text \<open>
  Likewise 26 characters in a box 350 wide and 495 high, from size 72: at size 66 there
  are six lines, of height 495 in real numbers and \<open>495.00000000000006\<close> in doubles, and
  the search goes on to size 60.
\<close>

lemma chooseFontSize_rounding_example:
  "jsadd (jsmul (Fin 6) (jsmul (Fin 66) (toDouble (12 / 10)))) (jsmul (Fin 66) (toDouble (3 / 10)))
     = Fin (495 + 1 / 2 ^ 44) \<and>
   \<not> heightFits (replicate 26 0x41) 350 495 66 \<and>
   chooseFontSize (replicate 26 0x41) 350 495 72 = 60"
  by (simp add: chooseFontSize_def heightFits_def strlen_def fontSizeLoop.simps double_eval)

subsection \<open>Evaluating the pipeline\<close>

lemmas engine_defs =
  logCall_def newImage_def newFromFile_def newFromBuffer_def bandjoin_def composite2_def
  writeToBuffer_def dispose_def tryDispose_def disposeIfSet_def getVips_def finallyDispose_def

lemmas gate_defs =
  alreadyInitialized_def iifeStart_def iifeResume_def awaitPromise_def
  ensureResvgInitialized_def

lemmas pipeline_defs =
  getRandomBackground_def getRandomEmotion_def firstOf_def startsWith_def endsWith_def
  nameCaptionStage_def generateBaseImageTry_def generateBaseImage_def
  drawUserTextTry_def drawUserText_def generateTextBoxImage_def truthy_def
  getProperty_def objectPrototypeKeys_def fontPathOf_def
  USER_TEXT_BOX_RECT_def USER_TEXT_FONT_SIZE_def

subsection \<open>The font-size search\<close>

lemma fontSizeLoop_range:
  "24 \<le> fontSize \<Longrightarrow> testFontSize \<le> fontSize \<Longrightarrow>
     24 \<le> fontSizeLoop tx bw bh fontSize testFontSize \<and>
     fontSizeLoop tx bw bh fontSize testFontSize \<le> fontSize"
proof (induction tx bw bh fontSize testFontSize rule: fontSizeLoop.induct)
  case (1 tx bw bh fontSize testFontSize)
  show ?case
  proof (cases "24 \<le> testFontSize \<and> \<not> heightFits tx bw bh testFontSize")
    case True
    then have "fontSizeLoop tx bw bh fontSize testFontSize
                 = fontSizeLoop tx bw bh fontSize (testFontSize - 6)"
      by (subst fontSizeLoop.simps) simp
    with True 1 show ?thesis by simp
  next
    case False
    with 1(2,3) show ?thesis by (subst (1 2) fontSizeLoop.simps) auto
  qed
qed

lemma fontSizeLoop_first_fit:
  "24 \<le> testFontSize - 6 * int k \<Longrightarrow> heightFits tx bw bh (testFontSize - 6 * int k) \<Longrightarrow>
     heightFits tx bw bh (fontSizeLoop tx bw bh fontSize testFontSize)"
proof (induction k arbitrary: testFontSize)
  case 0
  then show ?case by (subst fontSizeLoop.simps) simp
next
  case (Suc k)
  show ?case
  proof (cases "heightFits tx bw bh testFontSize")
    case True
    with Suc.prems show ?thesis by (subst fontSizeLoop.simps) simp
  next
    case False
    have "heightFits tx bw bh (fontSizeLoop tx bw bh fontSize (testFontSize - 6))"
      using Suc.IH [of "testFontSize - 6"] Suc.prems by (simp add: algebra_simps)
    with False Suc.prems show ?thesis by (subst fontSizeLoop.simps) simp
  qed
qed

lemma fontSizeLoop_no_fit:
  "(\<And>k. 24 \<le> testFontSize - 6 * int k \<Longrightarrow> \<not> heightFits tx bw bh (testFontSize - 6 * int k)) \<Longrightarrow>
     fontSizeLoop tx bw bh fontSize testFontSize = fontSize"
proof (induction tx bw bh fontSize testFontSize rule: fontSizeLoop.induct)
  case (1 tx bw bh fontSize testFontSize)
  show ?case
  proof (cases "24 \<le> testFontSize")
    case True
    have nf: "\<not> heightFits tx bw bh testFontSize" using 1(2) [of 0] True by simp
    have "fontSizeLoop tx bw bh fontSize (testFontSize - 6) = fontSize"
    proof (rule 1(1) [OF True nf])
      fix k assume "24 \<le> testFontSize - 6 - 6 * int k"
      then show "\<not> heightFits tx bw bh (testFontSize - 6 - 6 * int k)"
        using 1(2) [of "Suc k"] by (simp add: algebra_simps)
    qed
    with True nf show ?thesis by (subst fontSizeLoop.simps) simp
  next
    case False
    then show ?thesis by (subst fontSizeLoop.simps) simp
  qed
qed


lemma heights_1006:
  "map (heightFits (replicate 1006 0x41) 1611 445)
       [120, 114, 108, 102, 96, 90, 84, 78, 72, 66, 60, 54, 48, 42, 36, 30, 24]
     = [False, False, False, False, False, False, False, False, False, False, False, False,
        False, False, False, False, False]"
  by (simp add: heightFits_def strlen_def double_eval)

lemma heights_1005:
  "map (heightFits (replicate 1005 0x41) 1611 445)
       [120, 114, 108, 102, 96, 90, 84, 78, 72, 66, 60, 54, 48, 42, 36, 30, 24]
     = [False, False, False, False, False, False, False, False, False, False, False, False,
        False, False, False, False, True]"
  by (simp add: heightFits_def strlen_def double_eval)

text \<open>
  Claim C1.  The search is claimed to return a size between 24 and the start size, a
  size that fits whenever a size of the stepped range fits, and the minimum size 24 when
  none fits.  The first two parts hold (\<open>fontSizeLoop_range\<close>,
  \<open>fontSizeLoop_first_fit\<close>).  The third does not: \<open>fontSize\<close> is only assigned in the
  branch that breaks, so a loop that runs out leaves the start size
  (\<open>fontSizeLoop_no_fit\<close>).  In the caption box of the pipeline, 1611 by 445 pixels with
  start size 120, a text of 1005 characters is set at size 24, and a text of 1006
  characters, for which no size of the range fits, is set at size 120.
\<close>

theorem chooseFontSize_overflow_keeps_initial_size:
  "map (heightFits (replicate 1006 0x41) (2339 - 728) (800 - 355))
       [120, 114, 108, 102, 96, 90, 84, 78, 72, 66, 60, 54, 48, 42, 36, 30, 24]
     = [False, False, False, False, False, False, False, False, False, False, False, False,
        False, False, False, False, False] \<and>
   chooseFontSize (replicate 1006 0x41) (2339 - 728) (800 - 355) USER_TEXT_FONT_SIZE = 120 \<and>
   chooseFontSize (replicate 1005 0x41) (2339 - 728) (800 - 355) USER_TEXT_FONT_SIZE = 24"
  using heights_1006 heights_1005
  by (simp add: chooseFontSize_def fontSizeLoop.simps USER_TEXT_FONT_SIZE_def)


subsection \<open>Line wrapping\<close>

lemma wrapLoop_segs: "wrapLoop m (concat cur) cs = map concat (wrapSegs m cur cs)"
proof (induction cs arbitrary: cur)
  case Nil
  show ?case by simp
next
  case (Cons c cs)
  have a: "wrapLoop m c cs = map concat (wrapSegs m [c] cs)"
    using Cons.IH [of "[c]"] by simp
  have b: "wrapLoop m (concat cur @ c) cs = map concat (wrapSegs m (cur @ [c]) cs)"
    using Cons.IH [of "cur @ [c]"] by simp
  show ?case by (simp add: a b)
qed

lemma absorbs_wrapSegs:
  "absorbs m cur cs \<Longrightarrow> wrapSegs m cur cs = (if concat (cur @ cs) \<noteq> [] then [cur @ cs] else [])"
  by (induction cs arbitrary: cur) auto

lemma absorbs_snoc:
  "absorbs m a (b @ [c]) = (absorbs m a b \<and> \<not> jsle m (strlen (concat (a @ b))))"
  by (induction b arbitrary: a) auto

lemma wrapSegs_stable:
  assumes "\<not> jsle m (strlen [])"
  shows "absorbs m [] cur \<Longrightarrow> s \<in> set (wrapSegs m cur cs) \<Longrightarrow> absorbs m [] s \<and> concat s \<noteq> []"
proof (induction cs arbitrary: cur)
  case Nil
  then show ?case by (auto split: if_splits)
next
  case (Cons c cs)
  show ?case
  proof (cases "jsle m (strlen (concat cur))")
    case True
    with Cons.prems(2) have "s = cur \<or> s \<in> set (wrapSegs m [c] cs)" by simp
    then show ?thesis
    proof
      assume sc: "s = cur"
      have "concat cur \<noteq> []"
      proof
        assume "concat cur = []"
        with True assms show False by simp
      qed
      with sc Cons.prems(1) show ?thesis by simp
    next
      assume "s \<in> set (wrapSegs m [c] cs)"
      moreover have "absorbs m [] [c]" using assms by simp
      ultimately show ?thesis using Cons.IH by blast
    qed
  next
    case False
    with Cons.prems(2) have "s \<in> set (wrapSegs m (cur @ [c]) cs)" by simp
    moreover have "absorbs m [] (cur @ [c])"
      using False Cons.prems(1) by (simp add: absorbs_snoc)
    ultimately show ?thesis using Cons.IH by blast
  qed
qed

lemma wellseg_Cons: "wellseg (c # cs) \<Longrightarrow> c \<noteq> [] \<and> wellseg cs"
  by (induction "c # cs" rule: wellseg.induct) auto

lemma startsLow_codePoints: "startsLow (codePoints (v # us)) = isLow v"
  by (cases us) auto

lemma wellseg_codePoints: "wellseg (codePoints t)"
proof (induction t rule: codePoints.induct)
  case 1
  show ?case by simp
next
  case (2 u)
  show ?case by simp
next
  case (3 u v us)
  show ?case
  proof (cases "isHigh u \<and> isLow v")
    case True
    with 3 show ?thesis by simp
  next
    case False
    with 3 have "wellseg (codePoints (v # us))" by simp
    with False show ?thesis 
      using startsLow_codePoints [of v us] by auto
  qed
qed

lemma startsLow_append: "a \<noteq> [] \<Longrightarrow> startsLow (a @ b) = startsLow a"
  by (cases a) (auto elim: startsLow.elims)

lemma wellseg_append: "wellseg (a @ b) \<Longrightarrow> wellseg a \<and> wellseg b"
proof (induction a rule: wellseg.induct)
  case 1
  then show ?case by simp
next
  case (2 u cs)
  then show ?case by (cases "cs = []") (auto simp: startsLow_append)
qed simp_all

lemma codePoints_concat: "wellseg s \<Longrightarrow> codePoints (concat s) = s"
proof (induction s rule: wellseg.induct)
  case 1
  show ?case by simp
next
  case (2 u cs)
  then have IH: "codePoints (concat cs) = cs" and w: "wellseg cs" by simp_all
  show ?case
  proof (cases cs)
    case Nil
    then show ?thesis by simp
  next
    case (Cons d s')
    with w have "d \<noteq> []" using wellseg_Cons by blast
    then obtain v d' where d: "d = v # d'" by (cases d) auto
    have "\<not> (isHigh u \<and> isLow v)" using 2(2) Cons d by simp
    then have "codePoints (u # v # (d' @ concat s')) = [u] # codePoints (v # (d' @ concat s'))"
      by auto
    with IH Cons d show ?thesis by simp
  qed
qed simp_all

lemma wrapSegs_wellseg:
  "wellseg (cur @ cs) \<Longrightarrow> s \<in> set (wrapSegs m cur cs) \<Longrightarrow> wellseg s"
proof (induction cs arbitrary: cur)
  case Nil
  then show ?case by (auto split: if_splits)
next
  case (Cons c cs)
  have w1: "wellseg cur" using Cons.prems(1) wellseg_append by blast
  have w2: "wellseg ([c] @ cs)" using Cons.prems(1) wellseg_append [of cur "c # cs"] by simp
  have w3: "wellseg ((cur @ [c]) @ cs)" using Cons.prems(1) by simp
  show ?case
    using Cons.prems(2) Cons.IH [OF w2] Cons.IH [OF w3] w1
    by (auto split: if_splits)
qed

lemma ge1: "jsle (Fin 1) m \<Longrightarrow> \<not> jsle m (strlen [])"
  by (cases m) (auto simp: strlen_def)

lemma wrapLines_line:
  assumes m: "jsle (Fin 1) m" and l: "line \<in> set (wrapLines m text)"
  shows "wrapLines m line = [line]"
proof -
  have "wrapLines m text = map concat (wrapSegs m [] (codePoints text))"
    using wrapLoop_segs [of m "[]"] by (simp add: wrapLines_def)
  with l obtain s where s: "s \<in> set (wrapSegs m [] (codePoints text))" and ls: "line = concat s"
    by auto
  have st: "absorbs m [] s \<and> concat s \<noteq> []"
    using wrapSegs_stable [OF ge1 [OF m] _ s] by simp
  have ws: "wellseg s"
    using wrapSegs_wellseg [of "[]" "codePoints text" s m] s wellseg_codePoints by simp
  have "wrapLines m line = wrapLoop m (concat []) s"
    by (simp add: wrapLines_def ls codePoints_concat [OF ws])
  also have "\<dots> = map concat (wrapSegs m [] s)" by (rule wrapLoop_segs)
  also have "\<dots> = [line]" using st by (simp add: absorbs_wrapSegs ls)
  finally show ?thesis .
qed

lemma concat_map_single: "(\<And>x. x \<in> set xs \<Longrightarrow> f x = [x]) \<Longrightarrow> concat (map f xs) = xs"
  by (induction xs) auto


text \<open>
  Claim C8.  For a line limit of at least 1, every line that the wrap produces is
  wrapped again to itself alone, so wrapping each line of a wrapped text gives back the
  same lines.
\<close>

theorem wrapLines_idempotent:
  "jsle (Fin 1) m \<Longrightarrow>
     (\<forall>line \<in> set (wrapLines m text). wrapLines m line = [line]) \<and>
     concat (map (wrapLines m) (wrapLines m text)) = wrapLines m text"
proof -
  assume m: "jsle (Fin 1) m"
  have a: "\<forall>line \<in> set (wrapLines m text). wrapLines m line = [line]"
    using wrapLines_line [OF m] by blast
  have "concat (map (wrapLines m) (wrapLines m text)) = wrapLines m text"
    by (rule concat_map_single) (use a in blast)
  with a show ?thesis by blast
qed


theorem wrapLines_idempotent_witness:
  "jsle (Fin 1) (Fin 2) \<and>
   [0x41, 0xD83D, 0xDE00] \<in> set (wrapLines (Fin 2) [0x41, 0xD83D, 0xDE00, 0x42, 0x43]) \<and>
   wrapLines (Fin 2) [0x41, 0xD83D, 0xDE00] = [[0x41, 0xD83D, 0xDE00]] \<and>
   concat (map (wrapLines (Fin 2)) (wrapLines (Fin 2) [0x41, 0xD83D, 0xDE00, 0x42, 0x43]))
     = [[0x41, 0xD83D, 0xDE00], [0x42, 0x43]]"
proof -
  have h: "jsle (Fin 1) (Fin 2)" by simp
  have e: "wrapLines (Fin 2) [0x41, 0xD83D, 0xDE00, 0x42, 0x43]
             = [[0x41, 0xD83D, 0xDE00], [0x42, 0x43]]"
    by (simp add: wrapLines_def isHigh_def isLow_def strlen_def)
  show ?thesis
    using h wrapLines_idempotent [OF h, of "[0x41, 0xD83D, 0xDE00, 0x42, 0x43]"] e by simp
qed

subsection \<open>The document of an empty text\<close>

text \<open>
  Claim C10, as amended.  For the empty text and a positive font size, \<open>generateTextSvg\<close>
  has no line and no text run, and the declared width is \<open>-Infinity\<close>, which is not
  positive: \<open>Math.max\<close> of no line length is \<open>-Infinity\<close>, and it stays so when multiplied
  by the font size and increased by 4.  The height is that of no line above the margin.
\<close>

theorem generateTextSvg_empty_text:
  "0 < f \<Longrightarrow>
     wrapLines m [] = [] \<and>
     generateTextSvg esc [] width (Fin f) color
       = \<lparr>svg_width = NInf,
          svg_height = jsadd (jsmul (Fin 0) (jsmul (Fin f) (toDouble (12 / 10))))
                             (jsmul (Fin f) (toDouble (3 / 10))),
          svg_runs = []\<rparr> \<and>
     jsle (svg_width (generateTextSvg esc [] width (Fin f) color)) (Fin 0)"
  by (simp add: generateTextSvg_def wrapLines_def jsmax_def Let_def enumerate_eq_zip)

theorem generateTextSvg_empty_text_witness:
  "(0::real) < 120 \<and>
     wrapLines (Fin 13) [] = [] \<and>
     generateTextSvg id [] (num 1611) (num (chooseFontSize [] 1611 445 120)) (Colour ''#FFFFFF'')
       = \<lparr>svg_width = NInf, svg_height = Fin 36, svg_runs = []\<rparr>"
proof -
  have h: "(0::real) < 120" by simp
  have c: "chooseFontSize [] 1611 445 120 = 120"
    by (simp add: chooseFontSize_def heightFits_def strlen_def fontSizeLoop.simps double_eval)
  have g: "jsadd (jsmul (Fin 0) (jsmul (Fin 120) (toDouble (12 / 10))))
                 (jsmul (Fin 120) (toDouble (3 / 10))) = Fin 36"
    by (simp add: double_eval)
  show ?thesis
    using h generateTextSvg_empty_text [OF h, of "Fin 13" id "num 1611" "Colour ''#FFFFFF''"] c g
    by simp
qed

text \<open>
  Claim C10 as stated, with a document that can never be rendered as a caption, fails:
  no statement of \<open>drawUserText\<close> looks at the text or at the width of the document.  In
  the example world, whose renderer accepts every document, the document of the empty
  text is rendered, the rendered image is composited over the base image, and the request
  returns the encoded composite.
\<close>

theorem empty_text_document_is_rendered:
  "svg_width (generateTextSvg (w_encodeXML exampleWorld) [] (num 1611)
       (num (chooseFontSize [] 1611 445 120)) (Colour ''#FFFFFF'')) = NInf \<and>
   w_render exampleWorld (generateTextSvg (w_encodeXML exampleWorld) [] (num 1611)
       (num (chooseFontSize [] 1611 445 120)) (Colour ''#FFFFFF'')) [1] = Inr [2] \<and>
   drawUserText exampleWorld freshState [7] [] USER_TEXT_BOX_RECT USER_TEXT_FONT_SIZE
       (FontFile ''font1.ttf'')
     = (Inr [3],
        \<lparr>initialized = True, initializing = Some Fulfilled, nextHandle = 4,
         calls =
           [NewFromBuffer [7],
            Bandjoin \<lparr>img_handle = 0, img_bands = 3, img_alpha = False\<rparr>,
            NewFromBuffer [2],
            Composite2 \<lparr>img_handle = 1, img_bands = 4, img_alpha = True\<rparr>
              \<lparr>img_handle = 2, img_bands = 4, img_alpha = True\<rparr> 748 375,
            WriteToBuffer \<lparr>img_handle = 3, img_bands = 4, img_alpha = True\<rparr>,
            Dispose 3, Dispose 2, Dispose 1]\<rparr>)"
proof -
  have c: "chooseFontSize [] 1611 445 120 = 120"
    by (simp add: chooseFontSize_def heightFits_def strlen_def fontSizeLoop.simps double_eval)
  have w: "svg_width (generateTextSvg (w_encodeXML exampleWorld) [] (num 1611) (num 120)
             (Colour ''#FFFFFF'')) = NInf"
    by (simp add: generateTextSvg_def wrapLines_def jsmax_def Let_def)
  have d: "drawUserText exampleWorld freshState [7] [] USER_TEXT_BOX_RECT USER_TEXT_FONT_SIZE
       (FontFile ''font1.ttf'')
     = (Inr [3],
        \<lparr>initialized = True, initializing = Some Fulfilled, nextHandle = 4,
         calls =
           [NewFromBuffer [7],
            Bandjoin \<lparr>img_handle = 0, img_bands = 3, img_alpha = False\<rparr>,
            NewFromBuffer [2],
            Composite2 \<lparr>img_handle = 1, img_bands = 4, img_alpha = True\<rparr>
              \<lparr>img_handle = 2, img_bands = 4, img_alpha = True\<rparr> 748 375,
            WriteToBuffer \<lparr>img_handle = 3, img_bands = 4, img_alpha = True\<rparr>,
            Dispose 3, Dispose 2, Dispose 1]\<rparr>)"
    by (simp add: pipeline_defs engine_defs gate_defs exampleWorld_def freshState_def)
  have r: "w_render exampleWorld doc [1] = Inr [2]" for doc
    by (simp add: exampleWorld_def)
  from c w d r show ?thesis by simp
qed

subsection \<open>The two text runs of a line\<close>

lemma concat_pairs_nth:
  "i < length xs \<Longrightarrow>
     concat (map (\<lambda>x. [g x, h x]) xs) ! (2 * i) = g (xs ! i) \<and>
     concat (map (\<lambda>x. [g x, h x]) xs) ! (2 * i + 1) = h (xs ! i)"
proof (induction xs arbitrary: i)
  case Nil
  then show ?case by simp
next
  case (Cons x xs)
  show ?case
  proof (cases i)
    case 0
    then show ?thesis by simp
  next
    case (Suc j)
    with Cons.prems have "j < length xs" by simp
    from Cons.IH [OF this] Suc show ?thesis by simp
  qed
qed

lemma concat_pairs_length: "length (concat (map (\<lambda>x. [g x, h x]) xs)) = 2 * length xs"
  by (induction xs) auto

text \<open>
  Claim C7, as amended.  In the document of the user caption, line \<open>i\<close> is written as two
  runs one after the other: first the shadow at \<open>x = 2\<close> and two pixels below the
  baseline, black with \<open>fill-opacity\<close> 0.5, then the fill at \<open>x = 0\<close> on the baseline in
  the requested colour, both with the escaped line as content.  The document of a name
  caption has the same two runs in the same order, but its shadow carries no
  \<open>fill-opacity\<close>: it is opaque black.
\<close>

theorem text_runs_shadow_then_fill:
  "i < length (wrapLines (jsfloor (jsdiv width fontSize)) text) \<Longrightarrow>
     length (svg_runs (generateTextSvg esc text width fontSize color))
       = 2 * length (wrapLines (jsfloor (jsdiv width fontSize)) text) \<and>
     svg_runs (generateTextSvg esc text width fontSize color) ! (2 * i)
       = \<lparr>run_x = Fin 2,
          run_y = jsadd (jsadd fontSize (jsmul (num (int i)) (jsmul fontSize (toDouble (12 / 10))))) (Fin 2),
          run_font_size = fontSize, run_fill = Colour ''#000000'',
          run_fill_opacity = Some (1 / 2), run_font_family = ''CustomFont'',
          run_content = esc (wrapLines (jsfloor (jsdiv width fontSize)) text ! i)\<rparr> \<and>
     svg_runs (generateTextSvg esc text width fontSize color) ! (2 * i + 1)
       = \<lparr>run_x = Fin 0,
          run_y = jsadd fontSize (jsmul (num (int i)) (jsmul fontSize (toDouble (12 / 10)))),
          run_font_size = fontSize, run_fill = color,
          run_fill_opacity = None, run_font_family = ''CustomFont'',
          run_content = esc (wrapLines (jsfloor (jsdiv width fontSize)) text ! i)\<rparr> \<and>
     svg_runs (nameCaptionSvg esc config)
       = [\<lparr>run_x = Fin 2,
           run_y = jsadd (jsmul (num (cfg_font_size config)) (toDouble (12 / 10))) (Fin 2),
           run_font_size = num (cfg_font_size config), run_fill = Colour ''#000000'',
           run_fill_opacity = None, run_font_family = ''CustomFont'',
           run_content = esc (cfg_text config)\<rparr>,
          \<lparr>run_x = Fin 0,
           run_y = jsmul (num (cfg_font_size config)) (toDouble (12 / 10)),
           run_font_size = num (cfg_font_size config), run_fill = Rgb (cfg_font_color config),
           run_fill_opacity = None, run_font_family = ''CustomFont'',
           run_content = esc (cfg_text config)\<rparr>]"
proof -
  assume i: "i < length (wrapLines (jsfloor (jsdiv width fontSize)) text)"
  let ?lines = "wrapLines (jsfloor (jsdiv width fontSize)) text"
  let ?lh = "jsmul fontSize (toDouble (12 / 10))"
  let ?sh = "\<lambda>il. \<lparr>run_x = Fin 2,
          run_y = jsadd (jsadd fontSize (jsmul (num (int (fst il))) ?lh)) (Fin 2),
          run_font_size = fontSize, run_fill = Colour ''#000000'',
          run_fill_opacity = Some (1 / 2), run_font_family = ''CustomFont'',
          run_content = esc (snd il)\<rparr>"
  let ?fl = "\<lambda>il. \<lparr>run_x = Fin 0,
          run_y = jsadd fontSize (jsmul (num (int (fst il))) ?lh),
          run_font_size = fontSize, run_fill = color,
          run_fill_opacity = None, run_font_family = ''CustomFont'',
          run_content = esc (snd il)\<rparr>"
  have te: "textElement esc fontSize ?lh color = (\<lambda>il. [?sh il, ?fl il])"
    by (rule ext) (simp add: textElement_def Let_def)
  have runs: "svg_runs (generateTextSvg esc text width fontSize color)
                = concat (map (\<lambda>il. [?sh il, ?fl il]) (enumerate 0 ?lines))"
    unfolding generateTextSvg_def Let_def te by simp
  have ie: "i < length (enumerate 0 ?lines)" using i by simp
  have en: "enumerate 0 ?lines ! i = (i, ?lines ! i)" using i by (simp add: nth_enumerate_eq)
  have a: "length (svg_runs (generateTextSvg esc text width fontSize color)) = 2 * length ?lines"
    by (simp only: runs concat_pairs_length length_enumerate)
  have b: "svg_runs (generateTextSvg esc text width fontSize color) ! (2 * i) = ?sh (i, ?lines ! i)"
    using concat_pairs_nth [OF ie, of ?sh ?fl] by (simp only: runs en)
  have c: "svg_runs (generateTextSvg esc text width fontSize color) ! (2 * i + 1) = ?fl (i, ?lines ! i)"
    using concat_pairs_nth [OF ie, of ?sh ?fl] by (simp only: runs en)
  have d: "svg_runs (nameCaptionSvg esc config)
       = [\<lparr>run_x = Fin 2,
           run_y = jsadd (jsmul (num (cfg_font_size config)) (toDouble (12 / 10))) (Fin 2),
           run_font_size = num (cfg_font_size config), run_fill = Colour ''#000000'',
           run_fill_opacity = None, run_font_family = ''CustomFont'',
           run_content = esc (cfg_text config)\<rparr>,
          \<lparr>run_x = Fin 0,
           run_y = jsmul (num (cfg_font_size config)) (toDouble (12 / 10)),
           run_font_size = num (cfg_font_size config), run_fill = Rgb (cfg_font_color config),
           run_fill_opacity = None, run_font_family = ''CustomFont'',
           run_content = esc (cfg_text config)\<rparr>]"
    by (simp add: nameCaptionSvg_def Let_def)
  from a b c d show ?thesis by simp
qed

theorem text_runs_shadow_then_fill_witness:
  "(0::nat) < length (wrapLines (jsfloor (jsdiv (num 1611) (num 120))) [0x48, 0x69]) \<and>
   svg_runs (generateTextSvg (\<lambda>s. s) [0x48, 0x69] (num 1611) (num 120) (Colour ''#FFFFFF''))
     = [\<lparr>run_x = Fin 2, run_y = Fin 122, run_font_size = Fin 120, run_fill = Colour ''#000000'',
          run_fill_opacity = Some (1 / 2), run_font_family = ''CustomFont'',
          run_content = [0x48, 0x69]\<rparr>,
        \<lparr>run_x = Fin 0, run_y = Fin 120, run_font_size = Fin 120, run_fill = Colour ''#FFFFFF'',
          run_fill_opacity = None, run_font_family = ''CustomFont'',
          run_content = [0x48, 0x69]\<rparr>]"
proof -
  have l: "wrapLines (Fin 13) [0x48, 0x69] = [[0x48, 0x69]]"
    by (simp add: wrapLines_def isHigh_def isLow_def strlen_def)
  have m: "jsfloor (jsdiv (num 1611) (num 120)) = Fin 13"
    by (simp add: double_eval)
  have h: "(0::nat) < length (wrapLines (jsfloor (jsdiv (num 1611) (num 120))) [0x48, 0x69])"
    by (simp only: m l) simp
  have n: "length (svg_runs (generateTextSvg (\<lambda>s. s) [0x48, 0x69] (num 1611) (num 120) (Colour ''#FFFFFF''))) = 2"
    using text_runs_shadow_then_fill [OF h, of "\<lambda>s. s" "Colour ''#FFFFFF''"]
    by (simp only: m l) simp
  show ?thesis
    using h text_runs_shadow_then_fill [OF h, of "\<lambda>s. s" "Colour ''#FFFFFF''"] n
    unfolding m l
    by (simp add: double_eval list_eq_iff_nth_eq nth_Cons' less_Suc_eq numeral_2_eq_2)
qed

text \<open>
  Claim C7 as stated, with a shadow at reduced opacity in every document, fails on the
  name caption of the example catalog.
\<close>

theorem name_caption_shadow_opaque:
  "run_fill_opacity (svg_runs (nameCaptionSvg (\<lambda>s. s)
       \<lparr>cfg_text = [0x45, 0x6D, 0x61], cfg_position = (759, 63),
        cfg_font_color = [253, 145, 175], cfg_font_size = 186\<rparr>) ! 0) = None \<and>
   \<not> reducedOpacity (svg_runs (nameCaptionSvg (\<lambda>s. s)
       \<lparr>cfg_text = [0x45, 0x6D, 0x61], cfg_position = (759, 63),
        cfg_font_color = [253, 145, 175], cfg_font_size = 186\<rparr>) ! 0)"
  by (simp add: nameCaptionSvg_def reducedOpacity_def Let_def)

subsection \<open>The renderer gate\<close>

lemma ensureResvgInitialized_ready:
  "initialized st \<Longrightarrow> ensureResvgInitialized w st = (Inr (), st)"
  by (simp add: ensureResvgInitialized_def)

lemma ensureResvgInitialized_already_initialized:
  "\<not> initialized st \<Longrightarrow> initializing st = None \<Longrightarrow> alreadyInitialized err \<Longrightarrow>
   w_loadWasm w = Inl err \<or> (\<exists>wasmBuffer. w_loadWasm w = Inr wasmBuffer \<and>
                                  w_initWasm w wasmBuffer = Some err) \<Longrightarrow>
     ensureResvgInitialized w st
       = (Inr (), st\<lparr>initialized := True, initializing := Some Fulfilled\<rparr>)"
  by (auto simp: ensureResvgInitialized_def iifeStart_def iifeResume_def awaitPromise_def Let_def)

lemma ensureResvgInitialized_async_failure_resets:
  "\<not> initialized st \<Longrightarrow> initializing st = None \<Longrightarrow> \<not> alreadyInitialized err \<Longrightarrow>
   w_loadWasm w = Inr wasmBuffer \<Longrightarrow> w_initWasm w wasmBuffer = Some err \<Longrightarrow>
     ensureResvgInitialized w st = (Inl err, st)"
  by (simp add: ensureResvgInitialized_def iifeStart_def iifeResume_def awaitPromise_def Let_def)

text \<open>
  Claim C4.  An already-initialized error counts as success
  (\<open>ensureResvgInitialized_already_initialized\<close>), and a rejection of \<open>initWasm\<close> leaves
  the gate uninitialized and is thrown (\<open>ensureResvgInitialized_async_failure_resets\<close>).
  But when reading the wasm file throws, the \<open>catch\<close> block resets \<open>initializing\<close>
  before the async function has returned its promise, and the assignment then stores
  that rejected promise: the next call finds it, awaits it and throws the old error,
  although the initialization would now succeed.
\<close>

theorem ensureResvgInitialized_sync_failure_never_retried: 
 "ensureResvgInitialized (exampleWorld\<lparr>w_loadWasm := Inl (Error ''ENOENT'')\<rparr>) freshState
    = (Inl (Error ''ENOENT''), freshState\<lparr>initializing := Some (Rejected (Error ''ENOENT''))\<rparr>) \<and>
  ensureResvgInitialized exampleWorld (freshState\<lparr>initializing := Some (Rejected (Error ''ENOENT''))\<rparr>)
    = (Inl (Error ''ENOENT''), freshState\<lparr>initializing := Some (Rejected (Error ''ENOENT''))\<rparr>) \<and>
  ensureResvgInitialized exampleWorld freshState
    = (Inr (), freshState\<lparr>initialized := True, initializing := Some Fulfilled\<rparr>)"
  by (simp add: gate_defs exampleWorld_def freshState_def)

subsection \<open>Unknown characters\<close>

lemma generateTextBoxImage_unknown_character:
  "character \<notin> dom (charaMeta a) \<Longrightarrow> character \<notin> set objectPrototypeKeys \<Longrightarrow>
     generateTextBoxImage w a st character t backgroundIndex emotionIndex
       = (Inl (Error (''Unknown character: '' @ character)), st)"
  by (auto simp: generateTextBoxImage_def truthy_def getProperty_def split: option.splits)

text \<open>
  Claim C5.  A character that is neither in the catalog nor a property name of
  \<open>Object.prototype\<close> is rejected with the unknown-character error and the state
  untouched (\<open>generateTextBoxImage_unknown_character\<close>).  For \<open>constructor\<close>, which is
  not in the catalog, \<open>charaMeta[character]\<close> is the inherited function and truthy: the
  guard lets it pass, the background is loaded, and the request fails with the error of
  the missing sprite file.
\<close>

theorem generateTextBoxImage_inherited_key_passes_guard:
  "\<not> inCatalog exampleAssets ''constructor'' \<and>
   generateTextBoxImage exampleWorld exampleAssets freshState ''constructor'' [0x48, 0x69] None None
     = (Inl (Error ''file not found''),
        freshState\<lparr>nextHandle := 1,
                    calls := [NewFromFile (BackgroundFile (Index 1)),
                              NewFromFile (CharaFile ''constructor'' UndefinedIndex),
                              Dispose 0]\<rparr>)"
  by (simp add: inCatalog_def pipeline_defs engine_defs gate_defs exampleWorld_def
        exampleAssets_def freshState_def upto_rec1)

subsection \<open>Releasing images\<close>

text \<open>
  No release is re-thrown: once the engine is there, \<open>drawUserText\<close> returns bytes
  whatever the \<open>dispose\<close> calls of its \<open>finally\<close> block do.
\<close>

lemma drawUserText_never_throws:
  "getVips w = Inr () \<Longrightarrow>
     \<exists>out st'. drawUserText w st baseImage t boxRect initialFontSize fontPath = (Inr out, st')"
  by (auto simp: drawUserText_def split: prod.splits sum.splits)

text \<open>
  Claim C2.  When the base image has no alpha channel, \<open>image = image.bandjoin(255)\<close>
  overwrites the only reference to the decoded image: four images are created and the
  first is never released.  In \<open>generateBaseImage\<close>, a failing composite of a name
  caption leaves the loop with \<open>nameImage\<close> (object 3 below) unreleased, since the
  \<open>finally\<close> block only knows \<open>result\<close>, \<open>charImage\<close> and \<open>bgImage\<close>.
\<close>

theorem drawUserText_widened_base_never_released:
  "calls (snd (drawUserText exampleWorld freshState [7] [0x48, 0x69] USER_TEXT_BOX_RECT
                 USER_TEXT_FONT_SIZE (FontFile ''font1.ttf'')))
     = [NewFromBuffer [7],
        Bandjoin \<lparr>img_handle = 0, img_bands = 3, img_alpha = False\<rparr>,
        NewFromBuffer [2],
        Composite2 \<lparr>img_handle = 1, img_bands = 4, img_alpha = True\<rparr>
          \<lparr>img_handle = 2, img_bands = 4, img_alpha = True\<rparr> 748 375,
        WriteToBuffer \<lparr>img_handle = 3, img_bands = 4, img_alpha = True\<rparr>,
        Dispose 3, Dispose 2, Dispose 1] \<and>
   nextHandle (snd (drawUserText exampleWorld freshState [7] [0x48, 0x69] USER_TEXT_BOX_RECT
                 USER_TEXT_FONT_SIZE (FontFile ''font1.ttf''))) = 4 \<and>
   map (disposeCount (snd (drawUserText exampleWorld freshState [7] [0x48, 0x69]
                 USER_TEXT_BOX_RECT USER_TEXT_FONT_SIZE (FontFile ''font1.ttf''))))
       [0, 1, 2, 3] = [0, 1, 1, 1] \<and>
   generateBaseImage
       (exampleWorld\<lparr>w_composite2 := (\<lambda>base overlay x y.
           if x = 759 then Inl (Error ''composite failed'') else Inr (4, True))\<rparr>)
       exampleAssets freshState ''ema'' (Index 1) (Index 1)
     = (Inl (Error ''composite failed''),
        \<lparr>initialized = True, initializing = Some Fulfilled, nextHandle = 4,
         calls =
           [NewFromFile (BackgroundFile (Index 1)),
            NewFromFile (CharaFile ''ema'' (Index 1)),
            Composite2 \<lparr>img_handle = 0, img_bands = 3, img_alpha = False\<rparr>
              \<lparr>img_handle = 1, img_bands = 4, img_alpha = True\<rparr> 0 134,
            NewFromBuffer [2],
            Composite2 \<lparr>img_handle = 2, img_bands = 4, img_alpha = True\<rparr>
              \<lparr>img_handle = 3, img_bands = 4, img_alpha = True\<rparr> 759 63,
            Dispose 2, Dispose 1, Dispose 0]\<rparr>)"
  by (simp add: pipeline_defs engine_defs gate_defs exampleWorld_def exampleAssets_def
        freshState_def nameCaptionSvg_def disposeCount_def)

subsection \<open>Errors of the caption stage\<close>

lemma generateBaseImage_ok_vips:
  "generateBaseImage w a st character bg em = (Inr baseImage, st1) \<Longrightarrow> getVips w = Inr ()"
  by (auto simp: generateBaseImage_def split: sum.splits)

lemma drawUserText_catch:
  "getVips w = Inr () \<Longrightarrow>
     drawUserText w st baseImage t box fs fp =
       (case drawUserTextTry w st baseImage t box fs fp of
          (Inl err, vars, st') \<Rightarrow> (Inr baseImage, finallyDispose w st' vars)
        | (Inr out, vars, st') \<Rightarrow> (Inr out, finallyDispose w st' vars))"
  by (simp add: drawUserText_def)

text \<open>
  The steps of the caption stage, each failing in turn (the gate, the decoding of the
  base image, its widening, the font file, the rendering, the composite, the encoding):
  the bytes of the base image come back.
\<close>

lemma drawUserText_falls_back_at_every_step:
  "fst (drawUserText (exampleWorld\<lparr>w_initWasm := (\<lambda>wasm. Some (Error ''bad wasm''))\<rparr>)
          freshState [7] [0x48, 0x69] USER_TEXT_BOX_RECT USER_TEXT_FONT_SIZE
          (FontFile ''font1.ttf'')) = Inr [7]"
  "fst (drawUserText (exampleWorld\<lparr>w_newFromBuffer := (\<lambda>buf. Inl (Error ''not an image''))\<rparr>)
          freshState [7] [0x48, 0x69] USER_TEXT_BOX_RECT USER_TEXT_FONT_SIZE
          (FontFile ''font1.ttf'')) = Inr [7]"
  "fst (drawUserText (exampleWorld\<lparr>w_bandjoin := (\<lambda>img. Some (Error ''out of memory''))\<rparr>)
          freshState [7] [0x48, 0x69] USER_TEXT_BOX_RECT USER_TEXT_FONT_SIZE
          (FontFile ''font1.ttf'')) = Inr [7]"
  "fst (drawUserText (exampleWorld\<lparr>w_readFileSync := (\<lambda>path. Inl (Error ''ENOENT''))\<rparr>)
          freshState [7] [0x48, 0x69] USER_TEXT_BOX_RECT USER_TEXT_FONT_SIZE
          (FontFile ''font1.ttf'')) = Inr [7]"
  "fst (drawUserText (exampleWorld\<lparr>w_render := (\<lambda>doc fontBuffer. Inl (Error ''bad svg''))\<rparr>)
          freshState [7] [0x48, 0x69] USER_TEXT_BOX_RECT USER_TEXT_FONT_SIZE
          (FontFile ''font1.ttf'')) = Inr [7]"
  "fst (drawUserText (exampleWorld\<lparr>w_composite2 :=
              (\<lambda>base overlay x y. Inl (Error ''composite failed''))\<rparr>)
          freshState [7] [0x48, 0x69] USER_TEXT_BOX_RECT USER_TEXT_FONT_SIZE
          (FontFile ''font1.ttf'')) = Inr [7]"
  "fst (drawUserText (exampleWorld\<lparr>w_writeToBuffer :=
              (\<lambda>img suffix. Inl (Error ''encode failed''))\<rparr>)
          freshState [7] [0x48, 0x69] USER_TEXT_BOX_RECT USER_TEXT_FONT_SIZE
          (FontFile ''font1.ttf'')) = Inr [7]"
  by (simp_all add: pipeline_defs engine_defs gate_defs exampleWorld_def freshState_def)

text \<open>
  Claim C3.  Once the character has passed the guard and the indices are resolved, an
  error of \<open>generateBaseImage\<close> is the outcome of the request.  When the base image was
  built, the request succeeds: with the pre-caption bytes, unchanged, whenever the \<open>try\<close>
  block of \<open>drawUserText\<close> ends in an error, in whichever of its steps, and with the
  encoded composite otherwise.
\<close>

theorem caption_stage_error_returns_base:
  "truthy (getProperty (charaMeta a) character) \<Longrightarrow>
   (case backgroundIndex of Some i \<Rightarrow> Inr (Index i) | None \<Rightarrow> getRandomBackground w) = Inr bgIndex \<Longrightarrow>
   (case emotionIndex of Some i \<Rightarrow> Index i | None \<Rightarrow> getRandomEmotion w a character) = emIndex \<Longrightarrow>
   (case generateBaseImage w a st character bgIndex emIndex of
      (Inl e, st1) \<Rightarrow>
        generateTextBoxImage w a st character t backgroundIndex emotionIndex = (Inl e, st1)
    | (Inr baseImage, st1) \<Rightarrow>
        (case drawUserTextTry w st1 baseImage t USER_TEXT_BOX_RECT USER_TEXT_FONT_SIZE
                (fontPathOf a character) of
           (Inl err, vars, st2) \<Rightarrow>
             drawUserText w st1 baseImage t USER_TEXT_BOX_RECT USER_TEXT_FONT_SIZE
                (fontPathOf a character) = (Inr baseImage, finallyDispose w st2 vars) \<and>
             generateTextBoxImage w a st character t backgroundIndex emotionIndex
               = (Inr baseImage, finallyDispose w st2 vars)
         | (Inr out, vars, st2) \<Rightarrow>
             generateTextBoxImage w a st character t backgroundIndex emotionIndex
               = (Inr out, finallyDispose w st2 vars)))"
proof -
  assume tr: "truthy (getProperty (charaMeta a) character)"
    and bg: "(case backgroundIndex of Some i \<Rightarrow> Inr (Index i) | None \<Rightarrow> getRandomBackground w) = Inr bgIndex"
    and em: "(case emotionIndex of Some i \<Rightarrow> Index i | None \<Rightarrow> getRandomEmotion w a character) = emIndex"
  obtain r st1 where g: "generateBaseImage w a st character bgIndex emIndex = (r, st1)"
    by (cases "generateBaseImage w a st character bgIndex emIndex") auto
  have gen: "generateTextBoxImage w a st character t backgroundIndex emotionIndex =
          (case r of Inl e \<Rightarrow> (Inl e, st1)
           | Inr baseImage \<Rightarrow> drawUserText w st1 baseImage t USER_TEXT_BOX_RECT
                 USER_TEXT_FONT_SIZE (fontPathOf a character))"
    using tr bg em g by (simp add: generateTextBoxImage_def split: sum.splits)
  show ?thesis
  proof (cases r)
    case (Inl e)
    with g gen show ?thesis by simp
  next
    case (Inr baseImage)
    with g have v: "getVips w = Inr ()" using generateBaseImage_ok_vips by blast
    show ?thesis
      using g gen Inr drawUserText_catch [OF v, of st1 baseImage t USER_TEXT_BOX_RECT
          USER_TEXT_FONT_SIZE "fontPathOf a character"]
      by (auto split: prod.splits sum.splits)
  qed
qed

theorem caption_stage_error_returns_base_witness:
  "truthy (getProperty (charaMeta exampleAssets) ''ema'') \<and>
   fst (generateBaseImage
          (exampleWorld\<lparr>w_composite2 := (\<lambda>base overlay x y.
              if x = 748 then Inl (Error ''composite failed'') else Inr (4, True))\<rparr>)
          exampleAssets freshState ''ema'' (Index 1) (Index 1)) = Inr [4] \<and>
   fst (generateTextBoxImage
          (exampleWorld\<lparr>w_composite2 := (\<lambda>base overlay x y.
              if x = 748 then Inl (Error ''composite failed'') else Inr (4, True))\<rparr>)
          exampleAssets freshState ''ema'' [0x48, 0x69] (Some 1) (Some 1)) = Inr [4]"
proof -
  let ?w = "exampleWorld\<lparr>w_composite2 := (\<lambda>base overlay x y.
              if x = 748 then Inl (Error ''composite failed'') else Inr (4, True))\<rparr>"
  have tr: "truthy (getProperty (charaMeta exampleAssets) ''ema'')"
    by (simp add: truthy_def getProperty_def exampleAssets_def)
  have b: "fst (generateBaseImage ?w exampleAssets freshState ''ema'' (Index 1) (Index 1)) = Inr [4]"
    by (simp add: pipeline_defs engine_defs gate_defs exampleWorld_def exampleAssets_def
          freshState_def nameCaptionSvg_def)
  show ?thesis
    using tr b caption_stage_error_returns_base [where a = exampleAssets and character = "''ema''" and w = ?w
        and backgroundIndex = "Some 1" and bgIndex = "Index 1" and emotionIndex = "Some 1"
        and emIndex = "Index 1" and st = freshState and t = "[0x48, 0x69]"]
    by (simp add: pipeline_defs engine_defs gate_defs exampleWorld_def exampleAssets_def
          freshState_def nameCaptionSvg_def split: prod.splits sum.splits)
qed

subsection \<open>The operands of the caption composite\<close>












subsection \<open>Concurrent first calls of the gates\<close>

lemma sum_list_map_update:
  "i < length xs \<Longrightarrow>
     sum_list (map f (xs[i := y])) + f (xs ! i) = sum_list (map f xs) + (f y :: nat)"
proof (induction xs arbitrary: i)
  case Nil
  then show ?case by simp
next
  case (Cons x xs)
  then show ?case by (cases i) auto
qed

lemma sum_list_map_update':
  assumes "i < length xs"
  shows "f (xs ! i) \<le> sum_list (map f xs) \<and>
     sum_list (map f (xs[i := y])) = sum_list (map f xs) - f (xs ! i) + (f y :: nat)"
proof -
  have "f (xs ! i) \<le> sum_list (map f xs)"
    using assms by (intro member_le_sum_list) auto
  with sum_list_map_update [OF assms, of f y] show ?thesis by simp
qed

lemma gateStep_work: "gateStep w c e = Some c' \<Longrightarrow> gateWork c' < gateWork c"
proof (cases e)
  case (Call i)
  assume s: "gateStep w c e = Some c'"
  with Call have i: "i < length (g_callers c)" and idle: "g_callers c ! i = Idle"
    by (auto split: if_splits)
  note u = sum_list_map_update' [OF i, of callerWeight, unfolded idle, simplified]
  note ge = u [THEN conjunct1] and eq = u [THEN conjunct2]
  from s Call i idle ge show ?thesis
    by (auto simp: gateWork_def Let_def eq split: if_splits option.splits sum.splits)
next
  case (Settle p)
  assume s: "gateStep w c e = Some c'"
  with Settle obtain b where p: "p < length (g_promises c)" and pe: "g_promises c ! p = Pending b"
    by (auto split: if_splits pstate.splits)
  note u = sum_list_map_update' [OF p, of promiseWeight, unfolded pe, simplified]
  note ge = u [THEN conjunct1] and eq = u [THEN conjunct2]
  from s Settle p pe ge show ?thesis
    by (auto simp: gateWork_def eq split: if_splits option.splits)
next
  case (Resume i)
  assume s: "gateStep w c e = Some c'"
  with Resume obtain p where i: "i < length (g_callers c)" and aw: "g_callers c ! i = Awaiting p"
    by (auto split: if_splits caller.splits)
  note u = sum_list_map_update' [OF i, of callerWeight, unfolded aw, simplified]
  note ge = u [THEN conjunct1] and eq = u [THEN conjunct2]
  from s Resume i aw ge show ?thesis
    by (auto simp: gateWork_def eq split: if_splits pstate.splits promise.splits)
qed

lemma gateRun_work: "gateRun w c evs = Some c' \<Longrightarrow> length evs + gateWork c' \<le> gateWork c"
proof (induction evs arbitrary: c)
  case Nil
  then show ?case by simp
next
  case (Cons e evs)
  then obtain c1 where s: "gateStep w c e = Some c1" and r: "gateRun w c1 evs = Some c'"
    by (auto split: option.splits)
  from Cons.IH [OF r] gateStep_work [OF s] show ?case by simp
qed

lemma gateWork_initial: "gateWork (initialGate n) = 3 * n"
  by (simp add: gateWork_def initialGate_def sum_list_replicate)

lemma engineStep_work: "engineStep w c e = Some c' \<Longrightarrow> engineWork c' < engineWork c"
proof (cases e)
  case (Call i)
  assume s: "engineStep w c e = Some c'"
  with Call have i: "i < length (v_callers c)" and idle: "v_callers c ! i = Idle"
    by (auto split: if_splits)
  note u = sum_list_map_update' [OF i, of callerWeight, unfolded idle, simplified]
  note ge = u [THEN conjunct1] and eq = u [THEN conjunct2]
  from s Call i idle ge show ?thesis
    by (auto simp: engineWork_def eq split: if_splits)
next
  case (Settle p)
  assume s: "engineStep w c e = Some c'"
  with Settle show ?thesis
    by (auto simp: engineWork_def split: if_splits)
next
  case (Resume i)
  assume s: "engineStep w c e = Some c'"
  with Resume obtain p where i: "i < length (v_callers c)" and aw: "v_callers c ! i = Awaiting p"
    by (auto split: if_splits caller.splits)
  note u = sum_list_map_update' [OF i, of callerWeight, unfolded aw, simplified]
  note ge = u [THEN conjunct1] and eq = u [THEN conjunct2]
  from s Resume i aw ge show ?thesis
    by (auto simp: engineWork_def eq split: if_splits option.splits promise.splits)
qed

lemma engineRun_work:
  "engineRun w c evs = Some c' \<Longrightarrow> length evs + engineWork c' \<le> engineWork c"
proof (induction evs arbitrary: c)
  case Nil
  then show ?case by simp
next
  case (Cons e evs)
  then obtain c1 where s: "engineStep w c e = Some c1" and r: "engineRun w c1 evs = Some c'"
    by (auto split: option.splits)
  from Cons.IH [OF r] engineStep_work [OF s] show ?case by simp
qed

lemma engineWork_initial: "engineWork (initialEngine n) = 3 * n + 1"
  by (simp add: engineWork_def initialEngine_def sum_list_replicate)

lemma set_update_in: "set xs \<subseteq> S \<Longrightarrow> y \<in> S \<Longrightarrow> set (xs[i := y]) \<subseteq> S"
  using set_update_subset_insert [of xs i y] by auto

lemma gateInv_initial: "gateInv n b (initialGate n)"
  by (auto simp: gateInv_def initialGate_def)

lemma gateInv_step:
  assumes ok: "w_loadWasm w = Inr b" "w_initWasm w b = None"
    and inv: "gateInv n b c" and s: "gateStep w c e = Some c'"
  shows "gateInv n b c'"
proof -
  have len: "length (g_callers c) = n" and sub: "set (g_callers c) \<subseteq> {Idle, Awaiting 0, Done}"
    using inv by (simp_all add: gateInv_def)
  have a: "set ((g_callers c)[i := y]) \<subseteq> {Idle, Awaiting 0, Done}"
    if "y \<in> {Idle, Awaiting 0, Done}" for i y
    using sub that by (rule set_update_in)
  consider
    (fresh) "g_promises c = []" "g_initializing c = None" "\<not> g_initialized c"
      "g_initWasmCalls c = 0" "set (g_callers c) \<subseteq> {Idle}"
  | (flight) "g_promises c = [Pending b]" "g_initializing c = Some 0" "\<not> g_initialized c"
      "g_initWasmCalls c = 1"
  | (ready) "g_promises c = [Settled Fulfilled]" "g_initializing c = Some 0" "g_initialized c"
      "g_initWasmCalls c = 1"
    using inv by (auto simp: gateInv_def)
  then show ?thesis
  proof cases
    case fresh
    show ?thesis
    proof (cases e)
      case (Call i)
      with s fresh ok have "c' = c\<lparr>g_initializing := Some 0, g_promises := [Pending b],
          g_initWasmCalls := Suc 0, g_callers := (g_callers c)[i := Awaiting 0]\<rparr>"
        by (simp add: Let_def split: if_splits)
      with len a [of "Awaiting 0" i] fresh show ?thesis by (simp add: gateInv_def)
    next
      case (Settle p)
      with s fresh show ?thesis by simp
    next
      case (Resume i)
      with s have i: "i < length (g_callers c)" by (simp split: if_splits)
      then have "g_callers c ! i \<in> set (g_callers c)" by simp
      with fresh have "g_callers c ! i = Idle" by blast
      with s Resume i show ?thesis by simp
    qed
  next
    case flight
    show ?thesis
    proof (cases e)
      case (Call i)
      with s flight have "c' = c\<lparr>g_callers := (g_callers c)[i := Awaiting 0]\<rparr>"
        by (simp split: if_splits)
      with len a [of "Awaiting 0" i] flight show ?thesis by (simp add: gateInv_def)
    next
      case (Settle p)
      with s flight ok have "c' = c\<lparr>g_initialized := True, g_promises := [Settled Fulfilled]\<rparr>"
        by (simp split: if_splits)
      with len sub flight show ?thesis by (simp add: gateInv_def)
    next
      case (Resume i)
      with s flight show ?thesis by (simp split: if_splits caller.splits)
    qed
  next
    case ready
    show ?thesis
    proof (cases e)
      case (Call i)
      with s ready have "c' = c\<lparr>g_callers := (g_callers c)[i := Done]\<rparr>"
        by (simp split: if_splits)
      with len a [of Done i] ready show ?thesis by (simp add: gateInv_def)
    next
      case (Settle p)
      with s ready show ?thesis by (simp split: if_splits)
    next
      case (Resume i)
      with s ready have "c' = c\<lparr>g_callers := (g_callers c)[i := Done]\<rparr>"
        by (simp split: if_splits caller.splits)
      with len a [of Done i] ready show ?thesis by (simp add: gateInv_def)
    qed
  qed
qed

lemma gateInv_run:
  assumes ok: "w_loadWasm w = Inr b" "w_initWasm w b = None"
  shows "gateInv n b c \<Longrightarrow> gateRun w c evs = Some c' \<Longrightarrow> gateInv n b c'"
proof (induction evs arbitrary: c)
  case Nil
  then show ?case by simp
next
  case (Cons e evs)
  then obtain c1 where s: "gateStep w c e = Some c1" and r: "gateRun w c1 evs = Some c'"
    by (auto split: option.splits)
  from Cons.IH [OF gateInv_step [OF ok Cons.prems(1) s] r] show ?case .
qed

lemma gateInv_stuck:
  assumes ok: "w_loadWasm w = Inr b" "w_initWasm w b = None"
    and inv: "gateInv n b c" and stuck: "\<forall>e. gateStep w c e = None"
  shows "(\<forall>i<n. g_callers c ! i = Done) \<and> (0 < n \<longrightarrow> g_initialized c \<and> g_initWasmCalls c = 1)"
proof -
  have len: "length (g_callers c) = n" using inv by (simp add: gateInv_def)
  have all: "g_callers c ! i = Done" if i: "i < n" for i
  proof -
    have mem: "g_callers c ! i \<in> set (g_callers c)" using i len by simp
    have m: "g_callers c ! i \<in> {Idle, Awaiting 0, Done}"
      using inv mem by (auto simp: gateInv_def)
    have "g_callers c ! i \<noteq> Idle"
    proof
      assume "g_callers c ! i = Idle"
      with i len ok have "gateStep w c (Call i) \<noteq> None"
        by (auto simp: Let_def split: option.splits)
      with stuck show False by (simp del: gateStep.simps engineStep.simps)
    qed
    moreover have "g_callers c ! i \<noteq> Awaiting 0"
    proof
      assume aw: "g_callers c ! i = Awaiting 0"
      then have "\<not> set (g_callers c) \<subseteq> {Idle}"
        using mem by auto
      with inv have "g_promises c = [Pending b] \<or> g_promises c = [Settled Fulfilled]"
        by (auto simp: gateInv_def)
      then have "gateStep w c (Settle 0) \<noteq> None \<or> gateStep w c (Resume i) \<noteq> None"
        using aw i len ok by auto
      with stuck show False by (simp del: gateStep.simps engineStep.simps)
    qed
    ultimately show ?thesis using m by auto
  qed
  have "g_initialized c \<and> g_initWasmCalls c = 1" if n: "0 < n"
  proof -
    have "g_callers c ! 0 \<in> set (g_callers c)" using n len by simp
    with all [OF n] have "\<not> set (g_callers c) \<subseteq> {Idle}" by auto
    moreover have "g_promises c \<noteq> [Pending b]"
    proof
      assume "g_promises c = [Pending b]"
      with ok have "gateStep w c (Settle 0) \<noteq> None" by simp
      with stuck show False by (simp del: gateStep.simps engineStep.simps)
    qed
    ultimately show ?thesis using inv by (auto simp: gateInv_def)
  qed
  with all show ?thesis by blast
qed

lemma engineInv_initial: "engineInv n (initialEngine n)"
  by (auto simp: engineInv_def initialEngine_def)

lemma engineInv_step:
  assumes ok: "w_vipsPromise w = None"
    and inv: "engineInv n c" and s: "engineStep w c e = Some c'"
  shows "engineInv n c'"
proof -
  have len: "length (v_callers c) = n" and sub: "set (v_callers c) \<subseteq> {Idle, Awaiting 0, Done}"
    and one: "v_launches c = 1"
    using inv by (simp_all add: engineInv_def)
  have a: "set ((v_callers c)[i := y]) \<subseteq> {Idle, Awaiting 0, Done}"
    if "y \<in> {Idle, Awaiting 0, Done}" for i y
    using sub that by (rule set_update_in)
  have nd: "Done \<notin> set ((v_callers c)[i := Awaiting 0])" if "Done \<notin> set (v_callers c)" for i
    using that set_update_subset_insert [of "v_callers c" i "Awaiting 0"] by auto
  consider
    (pending) "v_promise c = None" "\<not> v_instance c" "Done \<notin> set (v_callers c)"
  | (settled) "v_promise c = Some Fulfilled" "Done \<in> set (v_callers c) \<longrightarrow> v_instance c"
    using inv by (auto simp: engineInv_def)
  then show ?thesis
  proof cases
    case pending
    show ?thesis
    proof (cases e)
      case (Call i)
      with s pending have "c' = c\<lparr>v_callers := (v_callers c)[i := Awaiting 0]\<rparr>"
        by (simp split: if_splits)
      with len one a [of "Awaiting 0" i] nd [OF pending(3), of i] pending show ?thesis
        by (simp add: engineInv_def)
    next
      case (Settle p)
      with s pending ok have "c' = c\<lparr>v_promise := Some Fulfilled\<rparr>"
        by (simp split: if_splits)
      with len one sub pending show ?thesis by (simp add: engineInv_def)
    next
      case (Resume i)
      with s pending show ?thesis by (simp split: if_splits caller.splits)
    qed
  next
    case settled
    show ?thesis
    proof (cases e)
      case (Call i)
      show ?thesis
      proof (cases "v_instance c")
        case True
        with s Call have "c' = c\<lparr>v_callers := (v_callers c)[i := Done]\<rparr>"
          by (simp split: if_splits)
        with len one a [of Done i] settled True show ?thesis by (simp add: engineInv_def)
      next
        case False
        with settled have "Done \<notin> set (v_callers c)" by blast
        from nd [OF this, of i] have "Done \<notin> set ((v_callers c)[i := Awaiting 0])" .
        moreover from s Call False have "c' = c\<lparr>v_callers := (v_callers c)[i := Awaiting 0]\<rparr>"
          by (simp split: if_splits)
        ultimately show ?thesis
          using len one a [of "Awaiting 0" i] settled by (simp add: engineInv_def)
      qed
    next
      case (Settle p)
      with s settled show ?thesis by (simp split: if_splits)
    next
      case (Resume i)
      with s settled have "c' = c\<lparr>v_instance := True, v_callers := (v_callers c)[i := Done]\<rparr>"
        by (simp split: if_splits caller.splits)
      with len one a [of Done i] settled show ?thesis by (simp add: engineInv_def)
    qed
  qed
qed

lemma engineInv_run:
  assumes ok: "w_vipsPromise w = None"
  shows "engineInv n c \<Longrightarrow> engineRun w c evs = Some c' \<Longrightarrow> engineInv n c'"
proof (induction evs arbitrary: c)
  case Nil
  then show ?case by simp
next
  case (Cons e evs)
  then obtain c1 where s: "engineStep w c e = Some c1" and r: "engineRun w c1 evs = Some c'"
    by (auto split: option.splits)
  from Cons.IH [OF engineInv_step [OF ok Cons.prems(1) s] r] show ?case .
qed

lemma engineInv_stuck:
  assumes inv: "engineInv n c" and stuck: "\<forall>e. engineStep w c e = None"
  shows "(\<forall>i<n. v_callers c ! i = Done) \<and> (0 < n \<longrightarrow> v_instance c)"
proof -
  have len: "length (v_callers c) = n" using inv by (simp add: engineInv_def)
  have p: "v_promise c = Some Fulfilled"
  proof (rule ccontr)
    assume "v_promise c \<noteq> Some Fulfilled"
    with inv have "v_promise c = None" by (auto simp: engineInv_def)
    then have "engineStep w c (Settle 0) \<noteq> None" by simp
    with stuck show False by (simp del: gateStep.simps engineStep.simps)
  qed
  have all: "v_callers c ! i = Done" if i: "i < n" for i
  proof -
    have mem: "v_callers c ! i \<in> set (v_callers c)" using i len by simp
    have m: "v_callers c ! i \<in> {Idle, Awaiting 0, Done}"
      using inv mem by (auto simp: engineInv_def)
    have "v_callers c ! i \<noteq> Idle"
    proof
      assume "v_callers c ! i = Idle"
      with i len have "engineStep w c (Call i) \<noteq> None" by auto
      with stuck show False by (simp del: gateStep.simps engineStep.simps)
    qed
    moreover have "v_callers c ! i \<noteq> Awaiting 0"
    proof
      assume "v_callers c ! i = Awaiting 0"
      with i len p have "engineStep w c (Resume i) \<noteq> None" by auto
      with stuck show False by (simp del: gateStep.simps engineStep.simps)
    qed
    ultimately show ?thesis using m by auto
  qed
  have "v_instance c" if n: "0 < n"
  proof (rule ccontr)
    assume ni: "\<not> v_instance c"
    have "v_callers c ! 0 = Done" using all [OF n] .
    moreover have "v_callers c ! 0 \<in> set (v_callers c)" using n len by simp
    ultimately have "Done \<in> set (v_callers c)" by simp
    with inv ni show False by (auto simp: engineInv_def)
  qed
  with all show ?thesis by blast
qed

lemma gateStep_call_in_flight:
  "gateStep w c (Call i) = Some c' \<Longrightarrow> \<not> g_initialized c \<Longrightarrow> g_initializing c = Some p \<Longrightarrow>
     g_initWasmCalls c' = g_initWasmCalls c \<and> g_promises c' = g_promises c \<and>
     g_callers c' ! i = Awaiting p"
  by (auto split: if_splits)

lemma gateRun_retry_after_failure:
  "gateRun (exampleWorld\<lparr>w_initWasm := (\<lambda>wasm. Some (Error ''bad wasm''))\<rparr>) (initialGate 3)
       [Call 0, Call 1, Settle 0, Resume 1, Resume 0, Call 2, Settle 1, Resume 2]
     = Some \<lparr>g_initialized = False, g_initializing = None,
             g_promises = [Settled (Rejected (Error ''bad wasm'')),
                           Settled (Rejected (Error ''bad wasm''))],
             g_initWasmCalls = 2,
             g_callers = [Failed (Error ''bad wasm''), Failed (Error ''bad wasm''),
                          Failed (Error ''bad wasm'')]\<rparr>"
  by (simp add: initialGate_def exampleWorld_def alreadyInitialized_def Let_def
        numeral_3_eq_3 numeral_2_eq_2)

lemma gate_single_caller_suspended:
  "w_loadWasm w = Inr wasmBuffer \<Longrightarrow>
     \<exists>c. gateRun w (initialGate 1) [Call 0, Settle 0, Resume 0] = Some c \<and>
         g_initialized c = initialized (snd (ensureResvgInitialized w freshState)) \<and>
         (g_initializing c = None) = (initializing (snd (ensureResvgInitialized w freshState)) = None) \<and>
         g_callers c = [case fst (ensureResvgInitialized w freshState) of
                          Inr u \<Rightarrow> Done | Inl err \<Rightarrow> Failed err]"
  by (cases "w_initWasm w wasmBuffer")
     (auto simp: initialGate_def freshState_def ensureResvgInitialized_def iifeStart_def
        iifeResume_def awaitPromise_def Let_def)

lemma gate_single_caller_returned:
  "w_loadWasm w = Inl err \<Longrightarrow>
     \<exists>c. gateRun w (initialGate 1) [Call 0, Resume 0] = Some c \<and>
         g_initialized c = initialized (snd (ensureResvgInitialized w freshState)) \<and>
         (g_initializing c = None) = (initializing (snd (ensureResvgInitialized w freshState)) = None) \<and>
         g_callers c = [case fst (ensureResvgInitialized w freshState) of
                          Inr u \<Rightarrow> Done | Inl err \<Rightarrow> Failed err]"
  by (auto simp: initialGate_def freshState_def ensureResvgInitialized_def iifeStart_def
        iifeResume_def awaitPromise_def Let_def)

text \<open>
  Claim C9.  Let the initialization of both subsystems succeed, and let \<open>n\<close> invocations
  call a gate for the first time, interleaved in any way.  At the renderer gate
  \<open>initWasm\<close> is called at most once, every waiting caller waits for that one promise,
  a schedule has at most \<open>3 n\<close> steps, and when no step is left every caller has
  returned, the gate is ready and \<open>initWasm\<close> was called exactly once.  At the engine
  gate the one \<open>Vips\<close> call of the module stays the only one, every waiting caller waits
  for its promise, a schedule has at most \<open>3 n + 1\<close> steps, and when no step is left
  every caller has returned with the instance set.
\<close>

theorem gates_initialize_once:
  assumes "w_loadWasm w = Inr wasmBuffer" and "w_initWasm w wasmBuffer = None"
    and "w_vipsPromise w = None"
    and "gateRun w (initialGate n) evs = Some c"
    and "engineRun w (initialEngine n) evs' = Some c'"
  shows "g_initWasmCalls c \<le> 1 \<and> set (g_callers c) \<subseteq> {Idle, Awaiting 0, Done} \<and>
         length evs \<le> 3 * n \<and>
         ((\<forall>e. gateStep w c e = None) \<longrightarrow>
            (\<forall>i<n. g_callers c ! i = Done) \<and> (0 < n \<longrightarrow> g_initialized c \<and> g_initWasmCalls c = 1)) \<and>
         v_launches c' = 1 \<and> set (v_callers c') \<subseteq> {Idle, Awaiting 0, Done} \<and>
         length evs' \<le> 3 * n + 1 \<and>
         ((\<forall>e. engineStep w c' e = None) \<longrightarrow>
            (\<forall>i<n. v_callers c' ! i = Done) \<and> (0 < n \<longrightarrow> v_instance c'))"
proof -
  have gi: "gateInv n wasmBuffer c"
    using gateInv_run [OF assms(1,2) gateInv_initial assms(4)] .
  have ei: "engineInv n c'"
    using engineInv_run [OF assms(3) engineInv_initial assms(5)] .
  have g1: "g_initWasmCalls c \<le> 1 \<and> set (g_callers c) \<subseteq> {Idle, Awaiting 0, Done}"
    using gi by (auto simp: gateInv_def)
  have g2: "length evs \<le> 3 * n"
    using gateRun_work [OF assms(4)] by (simp add: gateWork_initial)
  have g3: "(\<forall>e. gateStep w c e = None) \<longrightarrow>
            (\<forall>i<n. g_callers c ! i = Done) \<and> (0 < n \<longrightarrow> g_initialized c \<and> g_initWasmCalls c = 1)"
    using gateInv_stuck [OF assms(1,2) gi] by blast
  have e1: "v_launches c' = 1 \<and> set (v_callers c') \<subseteq> {Idle, Awaiting 0, Done}"
    using ei by (auto simp: engineInv_def)
  have e2: "length evs' \<le> 3 * n + 1"
    using engineRun_work [OF assms(5)] by (simp add: engineWork_initial)
  have e3: "(\<forall>e. engineStep w c' e = None) \<longrightarrow>
            (\<forall>i<n. v_callers c' ! i = Done) \<and> (0 < n \<longrightarrow> v_instance c')"
    using engineInv_stuck [OF ei] by blast
  from g1 g2 g3 e1 e2 e3 show ?thesis by blast
qed

theorem gates_initialize_once_witness:
  "w_loadWasm exampleWorld = Inr [0] \<and> w_initWasm exampleWorld [0] = None \<and>
   w_vipsPromise exampleWorld = None \<and>
   gateRun exampleWorld (initialGate 2) [Call 0, Call 1, Settle 0, Resume 1, Resume 0]
     = Some \<lparr>g_initialized = True, g_initializing = Some 0, g_promises = [Settled Fulfilled],
             g_initWasmCalls = 1, g_callers = [Done, Done]\<rparr> \<and>
   (\<forall>e. gateStep exampleWorld
          \<lparr>g_initialized = True, g_initializing = Some 0, g_promises = [Settled Fulfilled],
           g_initWasmCalls = 1, g_callers = [Done, Done]\<rparr> e = None) \<and>
   engineRun exampleWorld (initialEngine 2) [Call 0, Call 1, Settle 0, Resume 0, Resume 1]
     = Some \<lparr>v_instance = True, v_promise = Some Fulfilled, v_launches = 1,
             v_callers = [Done, Done]\<rparr> \<and>
   (\<forall>e. engineStep exampleWorld
          \<lparr>v_instance = True, v_promise = Some Fulfilled, v_launches = 1,
           v_callers = [Done, Done]\<rparr> e = None) \<and>
   length [Call 0, Call 1, Settle 0, Resume 1, Resume 0] \<le> 3 * (2::nat)"
proof -
  let ?c = "\<lparr>g_initialized = True, g_initializing = Some 0, g_promises = [Settled Fulfilled],
           g_initWasmCalls = 1, g_callers = [Done, Done]\<rparr>"
  let ?c' = "\<lparr>v_instance = True, v_promise = Some Fulfilled, v_launches = 1,
           v_callers = [Done, Done]\<rparr>"
  have a: "w_loadWasm exampleWorld = Inr [0]" "w_initWasm exampleWorld [0] = None"
    "w_vipsPromise exampleWorld = None"
    by (simp_all add: exampleWorld_def)
  have g: "gateRun exampleWorld (initialGate 2) [Call 0, Call 1, Settle 0, Resume 1, Resume 0]
             = Some ?c"
    by (simp add: initialGate_def exampleWorld_def Let_def numeral_2_eq_2)
  have e: "engineRun exampleWorld (initialEngine 2) [Call 0, Call 1, Settle 0, Resume 0, Resume 1]
             = Some ?c'"
    by (simp add: initialEngine_def exampleWorld_def numeral_2_eq_2)
  have gs: "gateStep exampleWorld ?c ev = None" for ev
    by (cases ev) (auto simp: nth_Cons' split: pstate.splits)
  have es: "engineStep exampleWorld ?c' ev = None" for ev
    by (cases ev) (auto simp: nth_Cons')
  from gates_initialize_once [OF a g e] a g e gs es show ?thesis by simp
qed

end
